theory Spec2Isabelle
  imports Complex_Main "HOL-Library.Char_ord" "HOL-Library.List_Lexorder"
begin

section \<open>JavaScript values\<close>

text \<open>
  The server keeps every tenant's library in one JSON file and works on the parsed
  value. Values are modelled by the datatype below. A number is a double: \<open>JNum n\<close> is the
  double of the integral value \<open>n\<close> (page counts, years, ratings, counters; the two zeros
  are one), \<open>JInf\<close> and \<open>JNegInf\<close> are the infinities and \<open>JNaN\<close> is not-a-number.
  An integer that is not a double denotes no value, and fractional numbers are outside the
  model. An object is the list of its own properties in enumeration order. Strings are byte
  strings.
\<close>

datatype jsval =
    JUndefined
  | JNull
  | JBool bool
  | JNum int
  | JInf
  | JNegInf
  | JNaN
  | JStr string
  | JArr "jsval list"
  | JObj "(string \<times> jsval) list"

type_synonym obj = "(string \<times> jsval) list"

subsection \<open>Numbers\<close>

text \<open>The results of arithmetic: an integral double, an infinity or NaN.\<close>

datatype number = Num int | PosInf | NegInf | NaN

function bit_length :: "int \<Rightarrow> nat" where
  "bit_length n = (if n \<le> 0 then 0 else Suc (bit_length (n div 2)))"
  by pat_completeness auto
termination
  by (relation "measure nat") auto

declare bit_length.simps [simp del]

text \<open>The double nearest to an integer. Below \<open>2^53\<close> in magnitude every integer is a
  double. Beyond, a double keeps 53 significant bits: the integer is rounded to the nearest
  multiple of \<open>2^e\<close>, a tie going to the even multiple, and a result of \<open>2^1024\<close> or more
  is an infinity.\<close>

definition to_double :: "int \<Rightarrow> number" where
  "to_double n =
     (if \<bar>n\<bar> < 9007199254740992 then Num n
      else (let a = \<bar>n\<bar>;
                e = bit_length a - 53;
                q = a div 2 ^ e;
                r = a mod 2 ^ e;
                q' = (if 2 ^ e < 2 * r \<or> (2 * r = 2 ^ e \<and> odd q) then q + 1 else q);
                m = q' * 2 ^ e
            in if 2 ^ 1024 \<le> m then (if n < 0 then NegInf else PosInf)
               else Num (if n < 0 then - m else m)))"

fun num_neg :: "number \<Rightarrow> number" where
  "num_neg (Num n) = Num (- n)"
| "num_neg PosInf = NegInf"
| "num_neg NegInf = PosInf"
| "num_neg NaN = NaN"

text \<open>Addition and multiplication of doubles are the exact operations, rounded.\<close>

fun num_add :: "number \<Rightarrow> number \<Rightarrow> number" where
  "num_add NaN b = NaN"
| "num_add a NaN = NaN"
| "num_add (Num a) (Num b) = to_double (a + b)"
| "num_add PosInf NegInf = NaN"
| "num_add NegInf PosInf = NaN"
| "num_add PosInf b = PosInf"
| "num_add NegInf b = NegInf"
| "num_add a PosInf = PosInf"
| "num_add a NegInf = NegInf"

definition num_sub :: "number \<Rightarrow> number \<Rightarrow> number" where
  "num_sub a b = num_add a (num_neg b)"

fun num_sign :: "number \<Rightarrow> int" where
  "num_sign (Num n) = sgn n"
| "num_sign PosInf = 1"
| "num_sign NegInf = - 1"
| "num_sign NaN = 0"

fun num_mul :: "number \<Rightarrow> number \<Rightarrow> number" where
  "num_mul NaN b = NaN"
| "num_mul a NaN = NaN"
| "num_mul (Num a) (Num b) = to_double (a * b)"
| "num_mul a b =
     (if num_sign a * num_sign b = 0 then NaN
      else if 0 < num_sign a * num_sign b then PosInf else NegInf)"

fun num_lt :: "number \<Rightarrow> number \<Rightarrow> bool" where
  "num_lt NaN b = False"
| "num_lt a NaN = False"
| "num_lt (Num a) (Num b) = (a < b)"
| "num_lt PosInf b = False"
| "num_lt a NegInf = False"
| "num_lt NegInf b = True"
| "num_lt a PosInf = True"

definition num_eq :: "number \<Rightarrow> number \<Rightarrow> bool" where
  "num_eq a b = (a \<noteq> NaN \<and> a = b)"

definition num_le :: "number \<Rightarrow> number \<Rightarrow> bool" where
  "num_le a b = (num_lt a b \<or> num_eq a b)"

fun of_number :: "number \<Rightarrow> jsval" where
  "of_number (Num n) = JNum n"
| "of_number PosInf = JInf"
| "of_number NegInf = JNegInf"
| "of_number NaN = JNaN"

text \<open>\<^verbatim>\<open>Math.ceil(n / d)\<close> for the length \<open>n\<close> of an array. An array has fewer than
  \<open>2^32\<close> elements, so for an integral \<open>d\<close> other than 0 the rounded quotient lies
  between the same two integers as the exact one, and its ceiling is the exact ceiling; a
  quotient by an infinity is 0.\<close>

definition ceil_quotient :: "nat \<Rightarrow> number \<Rightarrow> number" where
  "ceil_quotient n d =
     (case d of
        Num l \<Rightarrow> if l = 0 then (if n = 0 then NaN else PosInf) else Num (- (- int n div l))
      | PosInf \<Rightarrow> Num 0
      | NegInf \<Rightarrow> Num 0
      | NaN \<Rightarrow> NaN)"

subsection \<open>The engine\<close>

datatype error = TypeError | StorageFault

text \<open>Three primitives of the engine are left as parameters: the Unicode case mapping
  \<^verbatim>\<open>String.prototype.toLowerCase\<close>, the conversion of a string to a number
  (\<^verbatim>\<open>ToNumber\<close>), and \<^verbatim>\<open>Array.prototype.sort\<close> with a comparator that may throw:
  which pairs a sort compares, and the list it returns for a comparator that is not a
  consistent order, are the engine's choice.\<close>

record engine =
  toLowerCase :: "string \<Rightarrow> string"
  stringToNumber :: "string \<Rightarrow> number"
  arraySort :: "(obj \<Rightarrow> obj \<Rightarrow> error + int) \<Rightarrow> obj list \<Rightarrow> error + obj list"

subsection \<open>Properties and conversions\<close>

text \<open>\<^verbatim>\<open>o[k]\<close> on an object: the own property, \<^verbatim>\<open>undefined\<close> when there is none.\<close>

definition getp :: "obj \<Rightarrow> string \<Rightarrow> jsval" where
  "getp ob k = (case map_of ob k of None \<Rightarrow> JUndefined | Some v \<Rightarrow> v)"

text \<open>The decimal digits of a natural number.\<close>

fun dec :: "nat \<Rightarrow> string" where
  "dec n = (if n < 10 then [char_of (48 + n)] else dec (n div 10) @ [char_of (48 + n mod 10)])"

declare dec.simps [simp del]

text \<open>The value of a digit in radix \<open>R\<close> (10 or 16).\<close>

definition digit_of :: "nat \<Rightarrow> char \<Rightarrow> nat option" where
  "digit_of R c =
     (let n = (of_char c :: nat);
          d = (if 48 \<le> n \<and> n \<le> 57 then Some (n - 48)
               else if 97 \<le> n \<and> n \<le> 102 then Some (n - 87)
               else if 65 \<le> n \<and> n \<le> 70 then Some (n - 55)
               else None)
      in case d of None \<Rightarrow> None | Some v \<Rightarrow> if v < R then Some v else None)"

text \<open>The number written by the longest prefix of digits.\<close>

fun parse_digits :: "nat \<Rightarrow> string \<Rightarrow> nat \<Rightarrow> nat" where
  "parse_digits R [] acc = acc"
| "parse_digits R (c # cs) acc =
     (case digit_of R c of None \<Rightarrow> acc | Some d \<Rightarrow> parse_digits R cs (acc * R + d))"

text \<open>A property name is an array index when it is the canonical decimal form of an integer
  from 0 to \<open>2^32 - 2\<close>. The engine lists such properties first, in ascending order, and the
  others after them in the order of their creation.\<close>

definition array_index :: "string \<Rightarrow> nat option" where
  "array_index k =
     (let n = parse_digits 10 k 0
      in if k \<noteq> [] \<and> dec n = k \<and> n < 4294967295 then Some n else None)"

fun replace_prop :: "obj \<Rightarrow> string \<Rightarrow> jsval \<Rightarrow> obj" where
  "replace_prop [] k v = []"
| "replace_prop ((k', v') # ob) k v =
     (if k' = k then (k, v) # ob else (k', v') # replace_prop ob k v)"

fun insert_index :: "nat \<Rightarrow> string \<Rightarrow> jsval \<Rightarrow> obj \<Rightarrow> obj" where
  "insert_index n k v [] = [(k, v)]"
| "insert_index n k v ((k', v') # ob) =
     (case array_index k' of
        None \<Rightarrow> (k, v) # (k', v') # ob
      | Some m \<Rightarrow> if m < n then (k', v') # insert_index n k v ob else (k, v) # (k', v') # ob)"

text \<open>\<^verbatim>\<open>o[k] = v\<close>: an existing property keeps its place; a new one goes among the array
  indices when it is one, and last otherwise.\<close>

definition setp :: "obj \<Rightarrow> string \<Rightarrow> jsval \<Rightarrow> obj" where
  "setp ob k v =
     (if map_of ob k \<noteq> None then replace_prop ob k v
      else case array_index k of
             Some n \<Rightarrow> insert_index n k v ob
           | None \<Rightarrow> ob @ [(k, v)])"

fun truthy :: "jsval \<Rightarrow> bool" where
  "truthy JUndefined = False"
| "truthy JNull = False"
| "truthy (JBool b) = b"
| "truthy (JNum n) = (n \<noteq> 0)"
| "truthy JInf = True"
| "truthy JNegInf = True"
| "truthy JNaN = False"
| "truthy (JStr s) = (s \<noteq> [])"
| "truthy (JArr xs) = True"
| "truthy (JObj kvs) = True"

text \<open>\<^verbatim>\<open>a || b\<close>\<close>

definition js_or :: "jsval \<Rightarrow> jsval \<Rightarrow> jsval" where
  "js_or a b = (if truthy a then a else b)"

fun join :: "string list \<Rightarrow> string" where
  "join [] = []"
| "join [s] = s"
| "join (s # t # ss) = s @ CHR '','' # join (t # ss)"

text \<open>\<^verbatim>\<open>String(v)\<close>; inside an array \<^verbatim>\<open>null\<close> and \<^verbatim>\<open>undefined\<close> print as nothing.
  A number prints its decimal digits (the engine switches to exponent notation from
  \<open>10^21\<close> on, which is not modelled).\<close>

fun to_string :: "jsval \<Rightarrow> string" where
  "to_string JUndefined = ''undefined''"
| "to_string JNull = ''null''"
| "to_string (JBool b) = (if b then ''true'' else ''false'')"
| "to_string (JNum n) = (if n < 0 then CHR ''-'' # dec (nat (- n)) else dec (nat n))"
| "to_string JInf = ''Infinity''"
| "to_string JNegInf = ''-Infinity''"
| "to_string JNaN = ''NaN''"
| "to_string (JStr s) = s"
| "to_string (JArr xs) =
     join (map (\<lambda>x. if x = JUndefined \<or> x = JNull then [] else to_string x) xs)"
| "to_string (JObj kvs) = ''[object Object]''"

text \<open>\<^verbatim>\<open>ToPrimitive\<close>: arrays and plain objects become their strings.\<close>

fun to_primitive :: "jsval \<Rightarrow> jsval" where
  "to_primitive (JArr xs) = JStr (to_string (JArr xs))"
| "to_primitive (JObj kvs) = JStr (to_string (JObj kvs))"
| "to_primitive v = v"

text \<open>\<^verbatim>\<open>ToNumber\<close>\<close>

fun to_number :: "engine \<Rightarrow> jsval \<Rightarrow> number" where
  "to_number E JUndefined = NaN"
| "to_number E JNull = Num 0"
| "to_number E (JBool b) = Num (if b then 1 else 0)"
| "to_number E (JNum n) = Num n"
| "to_number E JInf = PosInf"
| "to_number E JNegInf = NegInf"
| "to_number E JNaN = NaN"
| "to_number E (JStr s) = stringToNumber E s"
| "to_number E v = (case to_primitive v of JStr s \<Rightarrow> stringToNumber E s | _ \<Rightarrow> NaN)"

definition is_str :: "jsval \<Rightarrow> bool" where
  "is_str v = (case v of JStr s \<Rightarrow> True | _ \<Rightarrow> False)"

text \<open>\<^verbatim>\<open>a + b\<close>: concatenation as soon as one side is a string, the addition of doubles
  otherwise.\<close>

definition js_plus :: "engine \<Rightarrow> jsval \<Rightarrow> jsval \<Rightarrow> jsval" where
  "js_plus E a b =
     (let pa = to_primitive a; pb = to_primitive b in
      if is_str pa \<or> is_str pb then JStr (to_string pa @ to_string pb)
      else of_number (num_add (to_number E pa) (to_number E pb)))"

text \<open>What \<^verbatim>\<open>JSON.parse(JSON.stringify(v))\<close> gives back: a property holding
  \<^verbatim>\<open>undefined\<close> is dropped; \<^verbatim>\<open>undefined\<close> in an array, NaN and the infinities become
  \<^verbatim>\<open>null\<close>.\<close>

primrec json_roundtrip :: "jsval \<Rightarrow> jsval" where
  "json_roundtrip JUndefined = JUndefined"
| "json_roundtrip JNull = JNull"
| "json_roundtrip (JBool b) = JBool b"
| "json_roundtrip (JNum n) = JNum n"
| "json_roundtrip JInf = JNull"
| "json_roundtrip JNegInf = JNull"
| "json_roundtrip JNaN = JNull"
| "json_roundtrip (JStr s) = JStr s"
| "json_roundtrip (JArr xs) =
     JArr (map (\<lambda>v. if v = JUndefined then JNull else v) (map json_roundtrip xs))"
| "json_roundtrip (JObj kvs) =
     JObj (filter (\<lambda>kv. snd kv \<noteq> JUndefined) (map (map_prod id json_roundtrip) kvs))"

definition roundtrip_obj :: "obj \<Rightarrow> obj" where
  "roundtrip_obj ob = filter (\<lambda>kv. snd kv \<noteq> JUndefined) (map (map_prod id json_roundtrip) ob)"

text \<open>A value that JSON text can denote: no \<^verbatim>\<open>undefined\<close>, NaN or infinity in it, and every
  number a double.\<close>

primrec is_json :: "jsval \<Rightarrow> bool" where
  "is_json JUndefined = False"
| "is_json JNull = True"
| "is_json (JBool b) = True"
| "is_json (JNum n) = (to_double n = Num n)"
| "is_json JInf = False"
| "is_json JNegInf = False"
| "is_json JNaN = False"
| "is_json (JStr s) = True"
| "is_json (JArr xs) = list_all (\<lambda>b. b) (map is_json xs)"
| "is_json (JObj kvs) = list_all (\<lambda>b. b) (map (\<lambda>p. snd p) (map (map_prod id is_json) kvs))"

definition is_json_obj :: "obj \<Rightarrow> bool" where
  "is_json_obj ob = list_all (\<lambda>kv. is_json (snd kv)) ob"

text \<open>\<^verbatim>\<open>a === b\<close> for values that come from different places (a stored record and a
  request): primitives are compared by value, NaN equals nothing, and an array or object is
  never the same reference as the other side.\<close>

fun strict_eq :: "jsval \<Rightarrow> jsval \<Rightarrow> bool" where
  "strict_eq (JArr xs) b = False"
| "strict_eq (JObj kvs) b = False"
| "strict_eq JNaN b = False"
| "strict_eq a b = (a = b)"

definition is_nullish :: "jsval \<Rightarrow> bool" where
  "is_nullish v = (v = JUndefined \<or> v = JNull)"

definition is_object :: "jsval \<Rightarrow> bool" where
  "is_object v = (case v of JArr xs \<Rightarrow> True | JObj kvs \<Rightarrow> True | _ \<Rightarrow> False)"

text \<open>\<^verbatim>\<open>a == b\<close>, again for values of different origin.\<close>

definition loose_eq :: "engine \<Rightarrow> jsval \<Rightarrow> jsval \<Rightarrow> bool" where
  "loose_eq E a b =
     (if is_nullish a \<or> is_nullish b then is_nullish a \<and> is_nullish b
      else if is_object a \<and> is_object b then False
      else (let pa = to_primitive a; pb = to_primitive b in
            if is_str pa \<and> is_str pb then pa = pb
            else num_eq (to_number E pa) (to_number E pb)))"

text \<open>\<^verbatim>\<open>a < b\<close>: two strings compare by their characters, anything else as numbers, and a
  comparison with NaN is false. \<^verbatim>\<open>a > b\<close> is \<^verbatim>\<open>b < a\<close>.\<close>

definition js_lt :: "engine \<Rightarrow> jsval \<Rightarrow> jsval \<Rightarrow> bool" where
  "js_lt E a b =
     (let pa = to_primitive a; pb = to_primitive b in
      if is_str pa \<and> is_str pb then to_string pa < to_string pb
      else num_lt (to_number E pa) (to_number E pb))"

definition js_gt :: "engine \<Rightarrow> jsval \<Rightarrow> jsval \<Rightarrow> bool" where
  "js_gt E a b = js_lt E b a"

text \<open>\<^verbatim>\<open>a >= n\<close> for a number \<open>n\<close>.\<close>

definition js_ge_num :: "engine \<Rightarrow> jsval \<Rightarrow> number \<Rightarrow> bool" where
  "js_ge_num E a n = num_le n (to_number E (to_primitive a))"

definition is_space :: "char \<Rightarrow> bool" where
  "is_space c = ((of_char c :: nat) \<in> {9, 10, 11, 12, 13, 32})"

text \<open>\<^verbatim>\<open>parseInt(v)\<close> without a radix: the string of \<open>v\<close>, leading white space skipped, a
  sign, a \<^verbatim>\<open>0x\<close> prefix for radix 16, then the longest prefix of digits. The result is
  the double nearest to the integer that the digits write (as V8 computes it), NaN when
  there is no digit.\<close>

definition parseInt :: "jsval \<Rightarrow> number" where
  "parseInt v =
     (let s = dropWhile is_space (to_string v);
          neg = (s \<noteq> [] \<and> hd s = CHR ''-'');
          s1 = (if s \<noteq> [] \<and> (hd s = CHR ''-'' \<or> hd s = CHR ''+'') then tl s else s);
          hex = (take 2 s1 = ''0x'' \<or> take 2 s1 = ''0X'');
          R = (if hex then 16 else 10);
          s2 = (if hex then drop 2 s1 else s1)
      in case s2 of
           [] \<Rightarrow> NaN
         | c # cs \<Rightarrow>
             (case digit_of R c of
                None \<Rightarrow> NaN
              | Some d \<Rightarrow> to_double ((if neg then - 1 else 1) * int (parse_digits R s2 0))))"

text \<open>\<^verbatim>\<open>parseInt(v) || d\<close>: NaN and 0 give the default.\<close>

definition or_default :: "number \<Rightarrow> int \<Rightarrow> number" where
  "or_default n d =
     (case n of
        NaN \<Rightarrow> Num d
      | Num m \<Rightarrow> if m = 0 then Num d else Num m
      | PosInf \<Rightarrow> PosInf
      | NegInf \<Rightarrow> NegInf)"

text \<open>\<^verbatim>\<open>s.includes(p)\<close>\<close>

fun str_includes :: "string \<Rightarrow> string \<Rightarrow> bool" where
  "str_includes [] p = (p = [])"
| "str_includes (c # cs) p = (take (length p) (c # cs) = p \<or> str_includes cs p)"

text \<open>\<^verbatim>\<open>xs.slice(s, e)\<close>: NaN is 0, a negative index counts from the end, and an index is
  clamped to the array.\<close>

definition relative_index :: "nat \<Rightarrow> number \<Rightarrow> nat" where
  "relative_index len i =
     (case i of
        NaN \<Rightarrow> 0
      | NegInf \<Rightarrow> 0
      | PosInf \<Rightarrow> len
      | Num s \<Rightarrow> if s < 0 then nat (max (int len + s) 0) else nat (min s (int len)))"

definition js_slice :: "'a list \<Rightarrow> number \<Rightarrow> number \<Rightarrow> 'a list" where
  "js_slice xs s e =
     (let k = relative_index (length xs) s;
          f = relative_index (length xs) e
      in take (f - k) (drop k xs))"

text \<open>\<^verbatim>\<open>xs.findIndex(p)\<close>, \<open>None\<close> for \<open>-1\<close>.\<close>

fun find_index :: "('a \<Rightarrow> bool) \<Rightarrow> 'a list \<Rightarrow> nat option" where
  "find_index p [] = None"
| "find_index p (x # xs) = (if p x then Some 0 else map_option Suc (find_index p xs))"

text \<open>\<^verbatim>\<open>xs.filter(p)\<close> for a callback that may throw: the first exception ends the scan.\<close>

fun filterE :: "('a \<Rightarrow> error + bool) \<Rightarrow> 'a list \<Rightarrow> error + 'a list" where
  "filterE p [] = Inr []"
| "filterE p (x # xs) =
     (case p x of
        Inl e \<Rightarrow> Inl e
      | Inr keep \<Rightarrow>
          (case filterE p xs of
             Inl e \<Rightarrow> Inl e
           | Inr ys \<Rightarrow> Inr (if keep then x # ys else ys)))"

text \<open>V8's sort of an array of fewer than 64 elements. The first run is counted: the
  second element is compared with the first, and each next element with the one before it,
  while the order stays descending (comparator below 0) or stays not descending; a
  descending run is reversed. Every further element is then placed by binary search in the
  sorted part. The comparator receives the later element first, and its exception ends the
  sort. (From 64 elements on V8 cuts the array into several runs and merges them, which
  this function does not do.)\<close>

fun run_tail ::
  "('a \<Rightarrow> 'a \<Rightarrow> error + int) \<Rightarrow> bool \<Rightarrow> 'a \<Rightarrow> 'a list \<Rightarrow> error + ('a list \<times> 'a list)" where
  "run_tail cmp desc prev [] = Inr ([], [])"
| "run_tail cmp desc prev (x # xs) =
     (case cmp x prev of
        Inl e \<Rightarrow> Inl e
      | Inr c \<Rightarrow>
          if (desc \<and> 0 \<le> c) \<or> (\<not> desc \<and> c < 0) then Inr ([], x # xs)
          else (case run_tail cmp desc x xs of
                  Inl e \<Rightarrow> Inl e
                | Inr (run, rest) \<Rightarrow> Inr (x # run, rest)))"

fun first_run :: "('a \<Rightarrow> 'a \<Rightarrow> error + int) \<Rightarrow> 'a list \<Rightarrow> error + ('a list \<times> 'a list)" where
  "first_run cmp [] = Inr ([], [])"
| "first_run cmp [x] = Inr ([x], [])"
| "first_run cmp (x0 # x1 # xs) =
     (case cmp x1 x0 of
        Inl e \<Rightarrow> Inl e
      | Inr c \<Rightarrow>
          (case run_tail cmp (c < 0) x1 xs of
             Inl e \<Rightarrow> Inl e
           | Inr (run, rest) \<Rightarrow>
               Inr (if c < 0 then rev (x0 # x1 # run) else x0 # x1 # run, rest)))"

function binary_search ::
  "('a \<Rightarrow> 'a \<Rightarrow> error + int) \<Rightarrow> 'a \<Rightarrow> 'a list \<Rightarrow> nat \<Rightarrow> nat \<Rightarrow> error + nat" where
  "binary_search cmp pivot placed left right =
     (if left < right
      then (case cmp pivot (placed ! (left + (right - left) div 2)) of
              Inl e \<Rightarrow> Inl e
            | Inr c \<Rightarrow>
                if c < 0 then binary_search cmp pivot placed left (left + (right - left) div 2)
                else binary_search cmp pivot placed (Suc (left + (right - left) div 2)) right)
      else Inr left)"
  by pat_completeness auto
termination
  by (relation "measure (\<lambda>(cmp, pivot, placed, left, right). right - left)") auto

declare binary_search.simps [simp del]

fun insert_all :: "('a \<Rightarrow> 'a \<Rightarrow> error + int) \<Rightarrow> 'a list \<Rightarrow> 'a list \<Rightarrow> error + 'a list" where
  "insert_all cmp placed [] = Inr placed"
| "insert_all cmp placed (x # xs) =
     (case binary_search cmp x placed 0 (length placed) of
        Inl e \<Rightarrow> Inl e
      | Inr i \<Rightarrow> insert_all cmp (take i placed @ x # drop i placed) xs)"

definition run_insertion_sort :: "('a \<Rightarrow> 'a \<Rightarrow> error + int) \<Rightarrow> 'a list \<Rightarrow> error + 'a list" where
  "run_insertion_sort cmp xs =
     (case first_run cmp xs of
        Inl e \<Rightarrow> Inl e
      | Inr (run, rest) \<Rightarrow> insert_all cmp run rest)"

section \<open>The document store\<close>

text \<open>The tenant document: \<^verbatim>\<open>{ user, books, metadata }\<close>. The user is an object or
  \<^verbatim>\<open>null\<close>, every book is an object, the metadata object may be missing
  (the code reads it with \<^verbatim>\<open>?.\<close>).\<close>

record document =
  user :: jsval
  books :: "obj list"
  metadata :: "obj option"

definition roundtrip_doc :: "document \<Rightarrow> document" where
  "roundtrip_doc d =
     \<lparr> user = json_roundtrip (user d),
       books = map roundtrip_obj (books d),
       metadata = map_option roundtrip_obj (metadata d) \<rparr>"

definition is_json_doc :: "document \<Rightarrow> bool" where
  "is_json_doc d =
     (is_json (user d) \<and> list_all is_json_obj (books d) \<and> int (length (books d)) < 4294967296 \<and>
      (case metadata d of None \<Rightarrow> True | Some m \<Rightarrow> is_json_obj m))"

text \<open>A file is missing (\<^verbatim>\<open>ENOENT\<close>), holds the text \<^verbatim>\<open>JSON.stringify(d)\<close> of a
  document, or cannot be read (any other fault of \<^verbatim>\<open>fs.readFile\<close> or \<^verbatim>\<open>JSON.parse\<close>).
  A text with \<open>2^32\<close> or more books cannot be read either: an array has fewer elements,
  and a string cannot hold the text.
  The world is the files, the paths that \<^verbatim>\<open>fs.writeFile\<close> refuses, and the clock:
  the \<open>n\<close>-th evaluation of \<^verbatim>\<open>new Date().toISOString()\<close> reads \<open>clock n\<close>.\<close>

datatype dbfile = NoFile | JsonFile document | Unreadable

record world =
  files :: "string \<Rightarrow> dbfile"
  write_fails :: "string \<Rightarrow> bool"
  clock :: "nat \<Rightarrow> string"
  ticks :: nat

definition now :: "world \<Rightarrow> string \<times> world" where
  "now w = (clock w (ticks w), w\<lparr>ticks := Suc (ticks w)\<rparr>)"

definition getDbPath :: "engine \<Rightarrow> string \<Rightarrow> string" where
  "getDbPath E studentId = ''data/db_'' @ toLowerCase E studentId @ ''.json''"

definition createEmptyDb :: "world \<Rightarrow> document \<times> world" where
  "createEmptyDb w =
     (let (t1, w1) = now w; (t2, w2) = now w1 in
      (\<lparr> user = JNull, books = [],
         metadata = Some [(''createdAt'', JStr t1), (''lastAccess'', JStr t2),
                          (''totalOperations'', JNum 0)] \<rparr>, w2))"

definition readStudentDb :: "engine \<Rightarrow> string \<Rightarrow> world \<Rightarrow> (error + document) \<times> world" where
  "readStudentDb E studentId w =
     (case files w (getDbPath E studentId) of
        JsonFile d \<Rightarrow>
          if int (length (books d)) < 4294967296 then (Inr (roundtrip_doc d), w)
          else (Inl StorageFault, w)
      | NoFile \<Rightarrow> (let (d, w') = createEmptyDb w in (Inr d, w'))
      | Unreadable \<Rightarrow> (Inl StorageFault, w))"

definition md_of :: "document \<Rightarrow> obj" where
  "md_of d = (case metadata d of None \<Rightarrow> [] | Some m \<Rightarrow> m)"

definition writeStudentDb ::
  "engine \<Rightarrow> string \<Rightarrow> document \<Rightarrow> world \<Rightarrow> (error + document) \<times> world" where
  "writeStudentDb E studentId data w =
     (let dbPath = getDbPath E studentId;
          (t, w1) = now w;
          ops = js_plus E (js_or (getp (md_of data) ''totalOperations'') (JNum 0)) (JNum 1);
          data' = data\<lparr>metadata :=
                    Some (setp (setp (md_of data) ''lastAccess'' (JStr t)) ''totalOperations'' ops)\<rparr>
      in if write_fails w1 dbPath then (Inl StorageFault, w1)
         else (Inr data', w1\<lparr>files := (files w1)(dbPath := JsonFile data')\<rparr>))"

record reset_result =
  deletedBooks :: nat
  totalOperations :: jsval

definition resetDatabase ::
  "engine \<Rightarrow> string \<Rightarrow> world \<Rightarrow> (error + reset_result) \<times> world" where
  "resetDatabase E studentId w =
     (case readStudentDb E studentId w of
        (Inl e, w1) \<Rightarrow> (Inl e, w1)
      | (Inr db, w1) \<Rightarrow>
          (let deletedCount = length (books db);
               totalOps = js_or (getp (md_of db) ''totalOperations'') (JNum 0);
               (createdAt, w2) =
                  (if truthy (getp (md_of db) ''createdAt'') then (getp (md_of db) ''createdAt'', w1)
                   else (let (t, w') = now w1 in (JStr t, w')));
               (t2, w3) = now w2;
               (t3, w4) = now w3;
               cleanDb = \<lparr> user = user db, books = [],
                           metadata = Some [(''createdAt'', createdAt), (''lastAccess'', JStr t2),
                                            (''totalOperations'', JNum 0), (''resetAt'', JStr t3),
                                            (''previousOperations'', totalOps)] \<rparr>
           in case writeStudentDb E studentId cleanDb w4 of
                (Inl e, w5) \<Rightarrow> (Inl e, w5)
              | (Inr d, w5) \<Rightarrow>
                  (Inr \<lparr> deletedBooks = deletedCount, totalOperations = totalOps \<rparr>, w5)))"


section \<open>The query engine\<close>

text \<open>\<^verbatim>\<open>book.genre?.toLowerCase().includes(filters.genre.toLowerCase())\<close>: a missing or
  \<^verbatim>\<open>null\<close> field gives \<^verbatim>\<open>undefined\<close>, which the filter reads as false; a field or a
  filter value of another type has no \<^verbatim>\<open>toLowerCase\<close> and the call throws.\<close>

definition ci_includes :: "engine \<Rightarrow> jsval \<Rightarrow> jsval \<Rightarrow> error + bool" where
  "ci_includes E field wanted =
     (case field of
        JUndefined \<Rightarrow> Inr False
      | JNull \<Rightarrow> Inr False
      | JStr s \<Rightarrow>
          (case wanted of
             JStr p \<Rightarrow> Inr (str_includes (toLowerCase E s) (toLowerCase E p))
           | _ \<Rightarrow> Inl TypeError)
      | _ \<Rightarrow> Inl TypeError)"

text \<open>The comparator of the sort: \<open>order\<close> is \<open>- 1\<close> for \<^verbatim>\<open>desc\<close> and \<open>1\<close> otherwise.
  When the first value is a string both are lowered, and lowering the second throws unless
  it is a string too.\<close>

definition compare_books :: "engine \<Rightarrow> string \<Rightarrow> int \<Rightarrow> obj \<Rightarrow> obj \<Rightarrow> error + int" where
  "compare_books E sortField order a b =
     (let aVal = getp a sortField; bVal = getp b sortField in
      case (case aVal of
              JStr s \<Rightarrow>
                (case bVal of
                   JStr s' \<Rightarrow> Inr (JStr (toLowerCase E s), JStr (toLowerCase E s'))
                 | _ \<Rightarrow> Inl TypeError)
            | _ \<Rightarrow> Inr (aVal, bVal)) of
        Inl e \<Rightarrow> Inl e
      | Inr (aVal', bVal') \<Rightarrow>
          Inr (if js_lt E aVal' bVal' then - 1 * order
               else if js_gt E aVal' bVal' then 1 * order
               else 0))"

text \<open>The filters and the sort of \<^verbatim>\<open>getBooks\<close>, in the order of the source.\<close>

definition filtered_sorted :: "engine \<Rightarrow> obj list \<Rightarrow> obj \<Rightarrow> error + obj list" where
  "filtered_sorted E bs filters =
     (case (if truthy (getp filters ''genre'')
            then filterE (\<lambda>book. ci_includes E (getp book ''genre'') (getp filters ''genre'')) bs
            else Inr bs) of
        Inl e \<Rightarrow> Inl e
      | Inr bs1 \<Rightarrow>
     (let bs2 = (if truthy (getp filters ''status'')
                 then filter (\<lambda>book. strict_eq (getp book ''status'') (getp filters ''status'')) bs1
                 else bs1)
      in
      case (if truthy (getp filters ''author'')
            then filterE (\<lambda>book. ci_includes E (getp book ''author'') (getp filters ''author'')) bs2
            else Inr bs2) of
        Inl e \<Rightarrow> Inl e
      | Inr bs3 \<Rightarrow>
     (let bs4 = (if truthy (getp filters ''year'')
                 then filter (\<lambda>book. loose_eq E (getp book ''year'') (getp filters ''year'')) bs3
                 else bs3);
          bs5 = (if truthy (getp filters ''rating'')
                 then filter (\<lambda>book. js_ge_num E (getp book ''rating'')
                                        (parseInt (getp filters ''rating''))) bs4
                 else bs4)
      in
      if truthy (getp filters ''sort'')
      then arraySort E (compare_books E (to_string (getp filters ''sort''))
                      (if strict_eq (getp filters ''order'') (JStr ''desc'') then - 1 else 1)) bs5
      else Inr bs5)))"

record pagination_info =
  currentPage :: number
  totalPages :: number
  totalBooks :: nat
  booksPerPage :: number
  hasNext :: bool
  hasPrev :: bool

record listing =
  paginatedBooks :: "obj list"
  pagination :: pagination_info

text \<open>The pagination of \<^verbatim>\<open>getBooks\<close>, on doubles.\<close>

definition paginate :: "obj list \<Rightarrow> obj \<Rightarrow> listing" where
  "paginate bs pg =
     (let page = or_default (parseInt (getp pg ''page'')) 1;
          limit = or_default (parseInt (getp pg ''limit'')) 10;
          startIndex = num_mul (num_sub page (Num 1)) limit;
          endIndex = num_add startIndex limit
      in \<lparr> paginatedBooks = js_slice bs startIndex endIndex,
           pagination =
             \<lparr> currentPage = page,
               totalPages = ceil_quotient (length bs) limit,
               totalBooks = length bs,
               booksPerPage = limit,
               hasNext = num_lt endIndex (Num (int (length bs))),
               hasPrev = num_lt (Num 1) page \<rparr> \<rparr>)"

definition getBooks ::
  "engine \<Rightarrow> string \<Rightarrow> obj \<Rightarrow> obj \<Rightarrow> world \<Rightarrow> (error + listing) \<times> world" where
  "getBooks E studentId filters pg w =
     (case readStudentDb E studentId w of
        (Inl e, w1) \<Rightarrow> (Inl e, w1)
      | (Inr db, w1) \<Rightarrow>
          (case filtered_sorted E (books db) filters of
             Inl e \<Rightarrow> (Inl e, w1)
           | Inr bs \<Rightarrow> (Inr (paginate bs pg), w1)))"

section \<open>The mutation engine\<close>

definition BOOK_STATUSES :: "string list" where
  "BOOK_STATUSES = [''to-read'', ''reading'', ''read'', ''abandoned'']"

definition allowedFields :: "string list" where
  "allowedFields =
     [''title'', ''author'', ''genre'', ''year'', ''pages'', ''rating'', ''status'', ''notes'']"

definition has_id :: "string \<Rightarrow> obj \<Rightarrow> bool" where
  "has_id bookId book = strict_eq (getp book ''id'') (JStr bookId)"

text \<open>\<^verbatim>\<open>addBook\<close>; \<open>newId\<close> is the identifier that \<^verbatim>\<open>uuidv4()\<close> returns.\<close>

definition addBook ::
  "engine \<Rightarrow> string \<Rightarrow> obj \<Rightarrow> string \<Rightarrow> world \<Rightarrow> (error + obj) \<times> world" where
  "addBook E studentId bookData newId w =
     (case readStudentDb E studentId w of
        (Inl e, w1) \<Rightarrow> (Inl e, w1)
      | (Inr db, w1) \<Rightarrow>
          (let (t1, w2) = now w1;
               (t2, w3) = now w2;
               newBook =
                 [(''id'', JStr newId),
                  (''title'', getp bookData ''title''),
                  (''author'', getp bookData ''author''),
                  (''genre'', js_or (getp bookData ''genre'') JNull),
                  (''year'', js_or (getp bookData ''year'') JNull),
                  (''pages'', js_or (getp bookData ''pages'') JNull),
                  (''rating'', js_or (getp bookData ''rating'') JNull),
                  (''status'', js_or (getp bookData ''status'') (JStr ''to-read'')),
                  (''notes'', js_or (getp bookData ''notes'') (JStr [])),
                  (''addedAt'', JStr t1),
                  (''updatedAt'', JStr t2)];
               db' = db\<lparr>books := books db @ [newBook]\<rparr>
           in case writeStudentDb E studentId db' w3 of
                (Inl e, w4) \<Rightarrow> (Inl e, w4)
              | (Inr d, w4) \<Rightarrow> (Inr newBook, w4)))"

text \<open>The \<^verbatim>\<open>forEach\<close> over the allowed fields.\<close>

definition apply_fields :: "obj \<Rightarrow> obj \<Rightarrow> obj" where
  "apply_fields book updateData =
     foldl (\<lambda>b field. if getp updateData field \<noteq> JUndefined
                       then setp b field (getp updateData field) else b)
       book allowedFields"

text \<open>\<^verbatim>\<open>updateBook\<close> returns \<^verbatim>\<open>null\<close> (\<open>None\<close>) when no book has the identifier.\<close>

definition updateBook ::
  "engine \<Rightarrow> string \<Rightarrow> string \<Rightarrow> obj \<Rightarrow> world \<Rightarrow> (error + obj option) \<times> world" where
  "updateBook E studentId bookId updateData w =
     (case readStudentDb E studentId w of
        (Inl e, w1) \<Rightarrow> (Inl e, w1)
      | (Inr db, w1) \<Rightarrow>
          (case find_index (has_id bookId) (books db) of
             None \<Rightarrow> (Inr None, w1)
           | Some bookIndex \<Rightarrow>
               (let (t, w2) = now w1;
                    book = setp (apply_fields (books db ! bookIndex) updateData)
                             ''updatedAt'' (JStr t);
                    db' = db\<lparr>books := (books db)[bookIndex := book]\<rparr>
                in case writeStudentDb E studentId db' w2 of
                     (Inl e, w3) \<Rightarrow> (Inl e, w3)
                   | (Inr d, w3) \<Rightarrow> (Inr (Some book), w3))))"

definition deleteBook ::
  "engine \<Rightarrow> string \<Rightarrow> string \<Rightarrow> world \<Rightarrow> (error + obj option) \<times> world" where
  "deleteBook E studentId bookId w =
     (case readStudentDb E studentId w of
        (Inl e, w1) \<Rightarrow> (Inl e, w1)
      | (Inr db, w1) \<Rightarrow>
          (case find_index (has_id bookId) (books db) of
             None \<Rightarrow> (Inr None, w1)
           | Some bookIndex \<Rightarrow>
               (let deletedBook = books db ! bookIndex;
                    db' = db\<lparr>books := take bookIndex (books db) @ drop (Suc bookIndex) (books db)\<rparr>
                in case writeStudentDb E studentId db' w1 of
                     (Inl e, w2) \<Rightarrow> (Inl e, w2)
                   | (Inr d, w2) \<Rightarrow> (Inr (Some deletedBook), w2))))"

section \<open>The aggregation engine\<close>

text \<open>\<^verbatim>\<open>count[k] = (count[k] || 0) + 1\<close> for each key in turn. The counting object starts
  empty; properties that a plain object inherits (\<^verbatim>\<open>constructor\<close>, \<^verbatim>\<open>toString\<close>, ...)
  are not modelled, and the theorems about the counts exclude those names.\<close>

definition tally :: "engine \<Rightarrow> string list \<Rightarrow> obj" where
  "tally E ks = foldl (\<lambda>count k. setp count k (js_plus E (js_or (getp count k) (JNum 0)) (JNum 1))) [] ks"

definition object_prototype_keys :: "string list" where
  "object_prototype_keys =
     [''constructor'', ''__defineGetter__'', ''__defineSetter__'', ''hasOwnProperty'',
      ''__lookupGetter__'', ''__lookupSetter__'', ''isPrototypeOf'', ''propertyIsEnumerable'',
      ''toString'', ''valueOf'', ''__proto__'', ''toLocaleString'']"

text \<open>\<^verbatim>\<open>Object.keys(count).reduce((a, b) => count[a] > count[b] ? a : b)\<close>, or
  \<^verbatim>\<open>'N/A'\<close> when there is no key.\<close>

definition favorite :: "engine \<Rightarrow> obj \<Rightarrow> string" where
  "favorite E count =
     (case map fst count of
        [] \<Rightarrow> ''N/A''
      | k # ks \<Rightarrow> foldl (\<lambda>a b. if js_gt E (getp count a) (getp count b) then a else b) k ks)"

record library_stats =
  libraryBooks :: nat
  booksRead :: nat
  booksReading :: nat
  booksToRead :: nat
  booksAbandoned :: nat

record preferences =
  favoriteGenre :: string
  favoriteAuthor :: string
  topRatedBooks :: "obj list"

record timeline =
  firstBook :: jsval
  lastBook :: jsval
  mostProductiveDay :: string

record stats =
  library :: library_stats
  prefs :: preferences
  time_line :: timeline

definition count_status :: "obj list \<Rightarrow> string \<Rightarrow> nat" where
  "count_status bs s = length (filter (\<lambda>b. strict_eq (getp b ''status'') (JStr s)) bs)"

text \<open>The statistics. The reading metrics (page and rating averages, books of the current
  year and month) are floating-point and calendar computations and are left out; they read
  the books only.\<close>

definition compute_stats :: "engine \<Rightarrow> obj list \<Rightarrow> stats" where
  "compute_stats E bs =
     (let genres = map (\<lambda>b. getp b ''genre'') (filter (\<lambda>b. truthy (getp b ''genre'')) bs);
          genreCount = tally E (map to_string genres);
          authors = map (\<lambda>b. getp b ''author'') bs;
          authorCount = tally E (map to_string authors)
      in \<lparr> library = \<lparr> libraryBooks = length bs,
                       booksRead = count_status bs ''read'',
                       booksReading = count_status bs ''reading'',
                       booksToRead = count_status bs ''to-read'',
                       booksAbandoned = count_status bs ''abandoned'' \<rparr>,
           prefs = \<lparr> favoriteGenre = favorite E genreCount,
                     favoriteAuthor = favorite E authorCount,
                     topRatedBooks =
                       map (\<lambda>b. [(''title'', getp b ''title''), (''rating'', getp b ''rating'')])
                         (js_slice (filter (\<lambda>b. strict_eq (getp b ''rating'') (JNum 5)) bs)
                            (Num 0) (Num 3)) \<rparr>,
           time_line = \<lparr> firstBook = (if 0 < length bs then getp (hd bs) ''addedAt'' else JNull),
                         lastBook = (if 0 < length bs then getp (last bs) ''addedAt'' else JNull),
                         mostProductiveDay = ''Lunes'' \<rparr> \<rparr>)"

definition getStats :: "engine \<Rightarrow> string \<Rightarrow> world \<Rightarrow> (error + stats) \<times> world" where
  "getStats E studentId w =
     (case readStudentDb E studentId w of
        (Inl e, w1) \<Rightarrow> (Inl e, w1)
      | (Inr db, w1) \<Rightarrow> (Inr (compute_stats E (books db)), w1))"

section \<open>The routes\<close>

text \<open>The handlers behind the authentication middleware. Each answers 500 when the store
  throws. Only the payload of a response is kept.\<close>

datatype response =
    Listed listing
  | Created obj
  | Updated obj
  | Deleted obj
  | Statistics stats
  | MissingRequiredFields
  | InvalidStatus
  | BookNotFound
  | InternalError

definition get_books :: "engine \<Rightarrow> string \<Rightarrow> obj \<Rightarrow> world \<Rightarrow> response \<times> world" where
  "get_books E studentId query w =
     (case getBooks E studentId query
             [(''page'', getp query ''page''), (''limit'', getp query ''limit'')] w of
        (Inl e, w') \<Rightarrow> (InternalError, w')
      | (Inr result, w') \<Rightarrow> (Listed result, w'))"

definition valid_status :: "jsval \<Rightarrow> bool" where
  "valid_status v = list_ex (\<lambda>s. strict_eq (JStr s) v) BOOK_STATUSES"

definition post_book :: "engine \<Rightarrow> string \<Rightarrow> obj \<Rightarrow> string \<Rightarrow> world \<Rightarrow> response \<times> world" where
  "post_book E studentId bookData newId w =
     (if \<not> truthy (getp bookData ''title'') \<or> \<not> truthy (getp bookData ''author'')
      then (MissingRequiredFields, w)
      else if truthy (getp bookData ''status'') \<and> \<not> valid_status (getp bookData ''status'')
      then (InvalidStatus, w)
      else case addBook E studentId bookData newId w of
             (Inl e, w') \<Rightarrow> (InternalError, w')
           | (Inr book, w') \<Rightarrow> (Created book, w'))"

definition put_book :: "engine \<Rightarrow> string \<Rightarrow> string \<Rightarrow> obj \<Rightarrow> world \<Rightarrow> response \<times> world" where
  "put_book E studentId bookId updateData w =
     (if truthy (getp updateData ''status'') \<and> \<not> valid_status (getp updateData ''status'')
      then (InvalidStatus, w)
      else case updateBook E studentId bookId updateData w of
             (Inl e, w') \<Rightarrow> (InternalError, w')
           | (Inr None, w') \<Rightarrow> (BookNotFound, w')
           | (Inr (Some book), w') \<Rightarrow> (Updated book, w'))"

definition delete_book :: "engine \<Rightarrow> string \<Rightarrow> string \<Rightarrow> world \<Rightarrow> response \<times> world" where
  "delete_book E studentId bookId w =
     (case deleteBook E studentId bookId w of
        (Inl e, w') \<Rightarrow> (InternalError, w')
      | (Inr None, w') \<Rightarrow> (BookNotFound, w')
      | (Inr (Some deletedBook), w') \<Rightarrow>
          (Deleted [(''id'', getp deletedBook ''id''), (''title'', getp deletedBook ''title''),
                    (''author'', getp deletedBook ''author'')], w'))"

definition get_stats :: "engine \<Rightarrow> string \<Rightarrow> world \<Rightarrow> response \<times> world" where
  "get_stats E studentId w =
     (case getStats E studentId w of
        (Inl e, w') \<Rightarrow> (InternalError, w')
      | (Inr s, w') \<Rightarrow> (Statistics s, w'))"

section \<open>Observations and sample data\<close>

text \<open>The document that a load returns from a stored file.\<close>

definition stored_doc :: "engine \<Rightarrow> string \<Rightarrow> world \<Rightarrow> document option" where
  "stored_doc E studentId w =
     (case files w (getDbPath E studentId) of
        JsonFile d \<Rightarrow> if int (length (books d)) < 4294967296 then Some (roundtrip_doc d) else None
      | _ \<Rightarrow> None)"

definition metadata_field :: "string \<Rightarrow> document \<Rightarrow> jsval" where
  "metadata_field k d = getp (md_of d) k"

text \<open>The record stored at a position of the book sequence, and one of its fields.\<close>

definition stored_book :: "engine \<Rightarrow> string \<Rightarrow> world \<Rightarrow> nat \<Rightarrow> obj option" where
  "stored_book E studentId w i =
     (case stored_doc E studentId w of
        None \<Rightarrow> None
      | Some d \<Rightarrow> if i < length (books d) then Some (books d ! i) else None)"

definition stored_field :: "engine \<Rightarrow> string \<Rightarrow> world \<Rightarrow> nat \<Rightarrow> string \<Rightarrow> jsval option" where
  "stored_field E studentId w i f = map_option (\<lambda>r. getp r f) (stored_book E studentId w i)"

text \<open>The keys that the statistics count: the string of every truthy genre, and of every
  author.\<close>

definition genre_keys :: "obj list \<Rightarrow> string list" where
  "genre_keys bs = map to_string (map (\<lambda>b. getp b ''genre'') (filter (\<lambda>b. truthy (getp b ''genre'')) bs))"

definition author_keys :: "obj list \<Rightarrow> string list" where
  "author_keys bs = map to_string (map (\<lambda>b. getp b ''author'') bs)"

text \<open>A key for which the counting object of the model is the engine's: not an array index
  (those are listed first) and not a name that plain objects inherit.\<close>

definition plain_key :: "string \<Rightarrow> bool" where
  "plain_key k = (array_index k = None \<and> \<not> List.member object_prototype_keys k)"

text \<open>The distinct elements of a list in the order of their first occurrence, and the
  keys that occur most often, in that order.\<close>

fun first_seen :: "'a list \<Rightarrow> 'a list" where
  "first_seen [] = []"
| "first_seen (x # xs) = x # filter (\<lambda>y. y \<noteq> x) (first_seen xs)"

definition top_keys :: "string list \<Rightarrow> string list" where
  "top_keys ks = filter (\<lambda>k. \<forall>k'\<in>set ks. count_list ks k' \<le> count_list ks k) (first_seen ks)"






text \<open>An engine for the examples: ASCII case mapping, decimal integers as the numbers that
  strings denote, and V8's sort of short arrays.\<close>

definition ascii_lower :: "char \<Rightarrow> char" where
  "ascii_lower c =
     (if (65::nat) \<le> of_char c \<and> of_char c \<le> (90::nat) then char_of (of_char c + (32::nat)) else c)"

fun digits_value :: "string \<Rightarrow> nat \<Rightarrow> nat option" where
  "digits_value [] acc = Some acc"
| "digits_value (c # cs) acc =
     (if (48::nat) \<le> of_char c \<and> of_char c \<le> (57::nat)
      then digits_value cs (10 * acc + (of_char c - 48)) else None)"

definition decimal_number :: "string \<Rightarrow> number" where
  "decimal_number s =
     (case s of
        [] \<Rightarrow> Num 0
      | c # cs \<Rightarrow>
          if c = CHR ''-'' \<and> cs \<noteq> []
          then (case digits_value cs 0 of None \<Rightarrow> NaN | Some n \<Rightarrow> to_double (- int n))
          else (case digits_value s 0 of None \<Rightarrow> NaN | Some n \<Rightarrow> to_double (int n)))"

definition plain_engine :: engine where
  "plain_engine =
     \<lparr> toLowerCase = map ascii_lower, stringToNumber = decimal_number,
       arraySort = run_insertion_sort \<rparr>"

text \<open>Sample data: the tenant \<open>ARGENIS\<close> with five books and an operation counter of 12,
  and a clock that starts on the first of May.\<close>

definition mk_book :: "string \<Rightarrow> string \<Rightarrow> string \<Rightarrow> jsval \<Rightarrow> jsval \<Rightarrow> string \<Rightarrow> obj" where
  "mk_book i t a g r s =
     [(''id'', JStr i), (''title'', JStr t), (''author'', JStr a), (''genre'', g),
      (''year'', JNull), (''pages'', JNull), (''rating'', r), (''status'', JStr s),
      (''notes'', JStr []), (''addedAt'', JStr ''2024-03-01T09:00:00.000Z''),
      (''updatedAt'', JStr ''2024-03-01T09:00:00.000Z'')]"

definition shelf :: "obj list" where
  "shelf =
     [mk_book ''b1'' ''Dune'' ''Herbert'' (JStr ''SciFi'') (JNum 5) ''read'',
      mk_book ''b2'' ''Emma'' ''Austen'' JNull JNull ''to-read'',
      mk_book ''b3'' ''Eragon'' ''Paolini'' (JStr ''Fantasy'') (JNum 3) ''reading'',
      mk_book ''b4'' ''Ubik'' ''Dick'' (JStr ''SciFi'') (JNum 4) ''read'',
      mk_book ''b5'' ''Momo'' ''Ende'' (JStr ''Fantasy'') JNull ''abandoned'']"

definition argenis_user :: jsval where
  "argenis_user =
     JObj [(''id'', JStr ''argenis_001''), (''name'', JStr ''Argenis''),
           (''email'', JStr ''argenis@biblioteca.com''), (''studentId'', JStr ''ARGENIS''),
           (''password'', JStr ''$2b$10$hash''), (''createdAt'', JStr ''2024-02-01T08:00:00.000Z''),
           (''active'', JBool True)]"

definition argenis_doc :: document where
  "argenis_doc =
     \<lparr> user = argenis_user, books = shelf,
       metadata = Some [(''createdAt'', JStr ''2024-02-01T08:00:00.000Z''),
                        (''lastAccess'', JStr ''2024-03-01T09:00:00.000Z''),
                        (''totalOperations'', JNum 12)] \<rparr>"

definition wall_clock :: "nat \<Rightarrow> string" where
  "wall_clock n = ''2024-05-01T10:00:00.'' @ dec n @ ''Z''"

definition argenis_world :: world where
  "argenis_world =
     \<lparr> files = (\<lambda>p. if p = ''data/db_argenis.json'' then JsonFile argenis_doc else NoFile),
       write_fails = (\<lambda>p. False), clock = wall_clock, ticks = 0 \<rparr>"

definition fresh_doc :: document where
  "fresh_doc = \<lparr> user = JNull, books = [mk_book ''b1'' ''Dune'' ''Herbert'' JNull JNull ''to-read''],
                 metadata = Some [(''createdAt'', JStr ''2024-02-01T08:00:00.000Z''),
                                  (''lastAccess'', JStr ''2024-02-01T08:00:00.000Z''),
                                  (''totalOperations'', JNum 7)] \<rparr>"

text \<open>The same document after \<open>2^53\<close> operations, and with a book whose page count is
  \<^verbatim>\<open>Infinity\<close>.\<close>

definition saturated_doc :: document where
  "saturated_doc =
     fresh_doc\<lparr>metadata := Some [(''createdAt'', JStr ''2024-02-01T08:00:00.000Z''),
                                (''lastAccess'', JStr ''2024-02-01T08:00:00.000Z''),
                                (''totalOperations'', JNum 9007199254740992)]\<rparr>"

definition unbounded_doc :: document where
  "unbounded_doc = fresh_doc\<lparr>books := map (\<lambda>b. setp b ''pages'' JInf) (books fresh_doc)\<rparr>"


text \<open>A store without files, and the store after three books were created in it through the
  route, the second one without a genre.\<close>

definition new_world :: world where
  "new_world = \<lparr> files = (\<lambda>p. NoFile), write_fails = (\<lambda>p. False), clock = wall_clock, ticks = 0 \<rparr>"

definition luis_world :: world where
  "luis_world =
     snd (post_book plain_engine ''LUIS''
            [(''title'', JStr ''Eragon''), (''author'', JStr ''Paolini''), (''genre'', JStr ''Fantasy'')]
            ''id-3''
       (snd (post_book plain_engine ''LUIS''
            [(''title'', JStr ''Emma''), (''author'', JStr ''Austen'')]
            ''id-2''
       (snd (post_book plain_engine ''LUIS''
            [(''title'', JStr ''Dune''), (''author'', JStr ''Herbert''), (''genre'', JStr ''SciFi'')]
            ''id-1'' new_world)))))"

section \<open>Properties of numbers\<close>

lemma bit_length_bounds: "2 ^ k \<le> n \<Longrightarrow> n < 2 ^ Suc k \<Longrightarrow> bit_length n = Suc k"
proof (induction k arbitrary: n)
  case 0
  then have "n = 1" by simp
  then show ?case by (simp add: bit_length.simps)
next
  case (Suc k)
  then have "2 ^ k \<le> n div 2" "n div 2 < 2 ^ Suc k" "0 < n" by simp_all
  with Suc.IH [of "n div 2"] show ?case by (subst bit_length.simps) simp
qed

lemma bit_length_pow53: "bit_length 9007199254740992 = 54"
  using bit_length_bounds [of 53 9007199254740992] by simp

lemma to_double_exact: "\<bar>n\<bar> \<le> 9007199254740992 \<Longrightarrow> to_double n = Num n"
proof (cases "\<bar>n\<bar> < 9007199254740992")
  case True
  then show ?thesis by (simp add: to_double_def)
next
  case False
  assume "\<bar>n\<bar> \<le> 9007199254740992"
  with False have a: "\<bar>n\<bar> = 9007199254740992" by simp
  then have "n = 9007199254740992 \<or> n = - 9007199254740992" by auto
  then show ?thesis
    by (auto simp: to_double_def Let_def bit_length_pow53)
qed

section \<open>Properties of the document store\<close>

lemma map_of_replace_prop:
  "map_of (replace_prop ob k v) k' = (if k' = k \<and> map_of ob k \<noteq> None then Some v else map_of ob k')"
  by (induction ob) auto

lemma map_of_insert_index:
  "map_of ob k = None \<Longrightarrow> map_of (insert_index n k v ob) k' = (if k' = k then Some v else map_of ob k')"
  by (induction ob) (auto split: option.splits if_splits)

lemma map_of_append_new:
  "map_of ob k = None \<Longrightarrow> map_of (ob @ [(k, v)]) k' = (if k' = k then Some v else map_of ob k')"
  by (induction ob) auto

lemma getp_setp: "getp (setp ob k v) k' = (if k' = k then v else getp ob k')"
  by (cases "map_of ob k")
     (auto simp: getp_def setp_def map_of_replace_prop map_of_insert_index map_of_append_new
           split: option.splits)

lemma set_replace_prop: "set (replace_prop ob k v) \<subseteq> insert (k, v) (set ob)"
  by (induction ob) (auto split: if_splits)

lemma set_insert_index: "set (insert_index n k v ob) = insert (k, v) (set ob)"
  by (induction ob) (auto split: option.splits if_splits)

lemma set_setp: "set (setp ob k v) \<subseteq> insert (k, v) (set ob)"
  using set_replace_prop [of ob k v]
  by (auto simp: setp_def set_insert_index split: option.splits)

lemma json_roundtrip_idem: "json_roundtrip (json_roundtrip v) = json_roundtrip v"
proof (induction v)
  case (JArr xs)
  then show ?case by (induction xs) auto
next
  case (JObj kvs)
  then have "\<forall>kv\<in>set kvs. json_roundtrip (json_roundtrip (snd kv)) = json_roundtrip (snd kv)"
    by (auto simp: snds.simps)
  then show ?case by (induction kvs) auto
qed auto

lemma roundtrip_obj_idem: "roundtrip_obj (roundtrip_obj ob) = roundtrip_obj ob"
  by (induction ob) (auto simp: roundtrip_obj_def json_roundtrip_idem)

lemma roundtrip_doc_idem: "roundtrip_doc (roundtrip_doc d) = roundtrip_doc d"
  by (cases "metadata d") (auto simp: roundtrip_doc_def roundtrip_obj_idem json_roundtrip_idem)

lemma is_json_roundtrip: "is_json v \<Longrightarrow> json_roundtrip v = v"
proof (induction v)
  case (JArr xs)
  then show ?case by (induction xs) auto
next
  case (JObj kvs)
  then have "\<forall>kv\<in>set kvs. json_roundtrip (snd kv) = snd kv \<and> snd kv \<noteq> JUndefined"
    by (auto simp: snds.simps list_all_iff)
  then show ?case by (induction kvs) auto
qed auto

lemma is_json_obj_roundtrip: "is_json_obj ob \<Longrightarrow> roundtrip_obj ob = ob"
  by (induction ob) (auto simp: roundtrip_obj_def is_json_obj_def is_json_roundtrip)

lemma is_json_doc_roundtrip: "is_json_doc d \<Longrightarrow> roundtrip_doc d = d"
  apply (cases "metadata d")
  apply (auto simp: roundtrip_doc_def is_json_doc_def is_json_obj_roundtrip is_json_roundtrip list_all_iff map_idI)
  done


lemma now_simps [simp]:
  "fst (now w) = clock w (ticks w)"
  "files (snd (now w)) = files w"
  "write_fails (snd (now w)) = write_fails w"
  "clock (snd (now w)) = clock w"
  "ticks (snd (now w)) = Suc (ticks w)"
  by (simp_all add: now_def)

lemma roundtrip_obj_fixed:
  assumes "roundtrip_obj ob = ob"
  shows "json_roundtrip (getp ob k) = getp ob k"
proof -
  let ?l = "map (map_prod id json_roundtrip) ob"
  have f: "filter (\<lambda>kv. snd kv \<noteq> JUndefined) ?l = ob"
    using assms by (simp add: roundtrip_obj_def)
  have "\<forall>x\<in>set ?l. snd x \<noteq> JUndefined"
  proof (rule ccontr)
    assume "\<not> ?thesis"
    then obtain x where "x \<in> set ?l" "\<not> snd x \<noteq> JUndefined" by blast
    then have "length (filter (\<lambda>kv. snd kv \<noteq> JUndefined) ?l) < length ?l"
      by (rule length_filter_less)
    with f show False by simp
  qed
  then have "filter (\<lambda>kv. snd kv \<noteq> JUndefined) ?l = ?l" by simp
  with f have m: "?l = ob" by simp
  then have "\<forall>kv\<in>set ob. json_roundtrip (snd kv) = snd kv"
    by (metis (no_types, lifting) map_eq_conv map_ident prod.collapse map_prod_simp snd_conv id_apply)
  then show ?thesis
    by (induction ob) (auto simp: getp_def split: option.splits)
qed

lemma readStudentDb_Inr:
  assumes "readStudentDb E sid w = (Inr db, w1)"
  shows "roundtrip_doc db = db \<and> files w1 = files w \<and> write_fails w1 = write_fails w
         \<and> clock w1 = clock w"
proof (cases "files w (getDbPath E sid)")
  case NoFile
  with assms show ?thesis
    by (auto simp: readStudentDb_def createEmptyDb_def now_def roundtrip_doc_def roundtrip_obj_def)
next
  case (JsonFile d)
  with assms show ?thesis
    by (auto simp: readStudentDb_def roundtrip_doc_idem split: if_splits)
next
  case Unreadable
  with assms show ?thesis by (simp add: readStudentDb_def)
qed

lemma readStudentDb_length:
  assumes "readStudentDb E sid w = (Inr db, w1)"
  shows "int (length (books db)) < 4294967296"
proof (cases "files w (getDbPath E sid)")
  case NoFile
  with assms show ?thesis
    by (auto simp: readStudentDb_def createEmptyDb_def now_def)
next
  case (JsonFile d)
  with assms show ?thesis
    by (auto simp: readStudentDb_def roundtrip_doc_def split: if_splits)
next
  case Unreadable
  with assms show ?thesis by (simp add: readStudentDb_def)
qed

lemma js_plus_num [simp]:
  "\<bar>m + n\<bar> \<le> 9007199254740992 \<Longrightarrow> js_plus E (JNum m) (JNum n) = JNum (m + n)"
  by (simp add: js_plus_def is_str_def to_double_exact)

lemma js_or_num [simp]: "js_or (JNum n) (JNum 0) = JNum n"
  by (simp add: js_or_def)

lemma js_or_undefined [simp]: "js_or JUndefined v = v"
  by (simp add: js_or_def)

lemma is_json_obj_setp: "is_json_obj ob \<Longrightarrow> is_json v \<Longrightarrow> is_json_obj (setp ob k v)"
  using set_setp [of ob k v] by (auto simp: is_json_obj_def list_all_iff)

text \<open>
  Claim C2, as amended. A document that JSON text can denote (no \<^verbatim>\<open>undefined\<close>, NaN or
  infinity in it) and whose operation counter is below \<open>2^53\<close> in magnitude is saved and
  loaded again, on storage that accepts the write: the load returns the very document that
  the save returned; its user and books are those handed to the save, and so is every
  metadata field other than \<open>lastAccess\<close> and \<open>totalOperations\<close>; \<open>lastAccess\<close> is the
  time of the save and \<open>totalOperations\<close> is the previous count (0 when there was none)
  plus one.
\<close>

theorem save_load_roundtrip:
  assumes "is_json_doc doc"
    and "\<not> write_fails w (getDbPath E sid)"
    and "getp (md_of doc) ''totalOperations'' = JNum n
         \<or> getp (md_of doc) ''totalOperations'' = JUndefined \<and> n = 0"
    and "\<bar>n\<bar> < 9007199254740992"
  shows "case writeStudentDb E sid doc w of
           (Inl e, w') \<Rightarrow> False
         | (Inr doc', w') \<Rightarrow>
             fst (readStudentDb E sid w') = Inr doc' \<and>
             user doc' = user doc \<and> books doc' = books doc \<and>
             (\<forall>k. k \<noteq> ''lastAccess'' \<and> k \<noteq> ''totalOperations'' \<longrightarrow>
                  getp (md_of doc') k = getp (md_of doc) k) \<and>
             getp (md_of doc') ''lastAccess'' = JStr (clock w (ticks w)) \<and>
             getp (md_of doc') ''totalOperations'' = JNum (n + 1)"
proof -
  let ?ops = "js_plus E (js_or (getp (md_of doc) ''totalOperations'') (JNum 0)) (JNum 1)"
  let ?md = "setp (setp (md_of doc) ''lastAccess'' (JStr (clock w (ticks w)))) ''totalOperations'' ?ops"
  let ?doc = "doc\<lparr>metadata := Some ?md\<rparr>"
  let ?w = "(snd (now w))\<lparr>files := (files (snd (now w)))(getDbPath E sid := JsonFile ?doc)\<rparr>"
  have b: "\<bar>n + 1\<bar> \<le> 9007199254740992" using assms(4) by simp
  have ops: "?ops = JNum (n + 1)" using assms(3) b by auto
  have wr: "writeStudentDb E sid doc w = (Inr ?doc, ?w)"
    using assms(2) by (simp add: writeStudentDb_def Let_def now_def)
  have "is_json_obj (md_of doc)"
    using assms(1) by (auto simp: is_json_doc_def md_of_def is_json_obj_def split: option.splits)
  moreover have "is_json (JNum (n + 1))"
    using b by (simp add: to_double_exact)
  ultimately have "is_json_obj ?md"
    using ops by (simp add: is_json_obj_setp)
  then have j: "is_json_doc ?doc"
    using assms(1) by (simp add: is_json_doc_def)
  then have "int (length (books ?doc)) < 4294967296"
    by (simp add: is_json_doc_def)
  with j have rd: "fst (readStudentDb E sid ?w) = Inr ?doc"
    by (simp add: readStudentDb_def is_json_doc_roundtrip)
  show ?thesis
    unfolding wr using rd ops by (simp add: md_of_def getp_setp)
qed

lemma writeStudentDb_ok:
  assumes "\<not> write_fails w (getDbPath E sid)"
  shows "writeStudentDb E sid data w =
     (Inr (data\<lparr>metadata := Some (setp (setp (md_of data) ''lastAccess'' (JStr (clock w (ticks w))))
              ''totalOperations''
              (js_plus E (js_or (getp (md_of data) ''totalOperations'') (JNum 0)) (JNum 1)))\<rparr>),
      (w\<lparr>ticks := Suc (ticks w)\<rparr>)\<lparr>files := (files w)(getDbPath E sid :=
         JsonFile (data\<lparr>metadata := Some (setp (setp (md_of data) ''lastAccess'' (JStr (clock w (ticks w))))
              ''totalOperations''
              (js_plus E (js_or (getp (md_of data) ''totalOperations'') (JNum 0)) (JNum 1)))\<rparr>))\<rparr>)"
  using assms by (simp add: writeStudentDb_def Let_def now_def)

text \<open>
  Claim C1, as amended. When the tenant's document loads as \<open>db\<close> and storage accepts the
  write, the reset returns the number of books of \<open>db\<close> and its operation count, and the
  persisted document has no books, the user and creation time of \<open>db\<close>, the reset time,
  the previous operation count, and an operation counter of 1: the reset writes 0 and the
  save that persists it counts itself.
\<close>

theorem resetDatabase_persisted:
  assumes rd: "readStudentDb E sid w = (Inr db, w1)"
    and wf: "\<not> write_fails w (getDbPath E sid)"
    and ops: "metadata_field ''totalOperations'' db = JNum n"
    and cr: "truthy (metadata_field ''createdAt'' db)"
  shows "fst (resetDatabase E sid w) = Inr \<lparr> deletedBooks = length (books db), totalOperations = JNum n \<rparr>
       \<and> map_option books (stored_doc E sid (snd (resetDatabase E sid w))) = Some []
       \<and> map_option user (stored_doc E sid (snd (resetDatabase E sid w))) = Some (user db)
       \<and> map_option (metadata_field ''createdAt'') (stored_doc E sid (snd (resetDatabase E sid w)))
           = Some (metadata_field ''createdAt'' db)
       \<and> map_option (metadata_field ''totalOperations'') (stored_doc E sid (snd (resetDatabase E sid w)))
           = Some (JNum 1)
       \<and> map_option (metadata_field ''previousOperations'') (stored_doc E sid (snd (resetDatabase E sid w)))
           = Some (JNum n)
       \<and> map_option (metadata_field ''resetAt'') (stored_doc E sid (snd (resetDatabase E sid w)))
           = Some (JStr (clock w (Suc (ticks w1))))"
proof -
  from readStudentDb_Inr [OF rd]
  have nrm: "roundtrip_doc db = db" and wf1: "write_fails w1 = write_fails w" and ck: "clock w1 = clock w"
    by simp_all
  have u: "json_roundtrip (user db) = user db"
    using nrm by (metis roundtrip_doc_def document.select_convs(1))
  have "metadata (roundtrip_doc db) = metadata db" using nrm by simp
  then have "roundtrip_obj (md_of db) = md_of db"
    by (cases "metadata db") (auto simp: roundtrip_doc_def md_of_def roundtrip_obj_def)
  then have c: "json_roundtrip (getp (md_of db) ''createdAt'') = getp (md_of db) ''createdAt''"
    by (rule roundtrip_obj_fixed)
  have nu: "getp (md_of db) ''createdAt'' \<noteq> JUndefined"
    using cr by (auto simp: metadata_field_def)
  show ?thesis
    using ops cr wf wf1 ck u c nu
    by (simp add: resetDatabase_def rd Let_def now_def writeStudentDb_ok stored_doc_def
        metadata_field_def md_of_def roundtrip_doc_def roundtrip_obj_def getp_def setp_def)
qed

lemma argenis_path: "getDbPath plain_engine ''ARGENIS'' = ''data/db_argenis.json''"
  by code_simp

lemma argenis_doc_json: "is_json_doc argenis_doc"
  by code_simp

lemma argenis_read:
  "readStudentDb plain_engine ''ARGENIS'' argenis_world = (Inr argenis_doc, argenis_world)"
proof -
  have "int (length (books argenis_doc)) < 4294967296"
    using argenis_doc_json by (simp add: is_json_doc_def)
  then show ?thesis
    by (simp add: readStudentDb_def argenis_path argenis_world_def is_json_doc_roundtrip
        argenis_doc_json)
qed

text \<open>The scenario of the specification: five books and an operation counter of 12.\<close>

theorem resetDatabase_persisted_witness:
  "readStudentDb plain_engine ''ARGENIS'' argenis_world = (Inr argenis_doc, argenis_world)
   \<and> length (books argenis_doc) = 5
   \<and> metadata_field ''totalOperations'' argenis_doc = JNum 12
   \<and> fst (resetDatabase plain_engine ''ARGENIS'' argenis_world)
        = Inr \<lparr> deletedBooks = 5, totalOperations = JNum 12 \<rparr>
   \<and> map_option books (stored_doc plain_engine ''ARGENIS''
          (snd (resetDatabase plain_engine ''ARGENIS'' argenis_world))) = Some []
   \<and> map_option user (stored_doc plain_engine ''ARGENIS''
          (snd (resetDatabase plain_engine ''ARGENIS'' argenis_world))) = Some argenis_user
   \<and> map_option (metadata_field ''previousOperations'') (stored_doc plain_engine ''ARGENIS''
          (snd (resetDatabase plain_engine ''ARGENIS'' argenis_world))) = Some (JNum 12)"
proof -
  have wf: "\<not> write_fails argenis_world (getDbPath plain_engine ''ARGENIS'')"
    by (simp add: argenis_world_def)
  have ops: "metadata_field ''totalOperations'' argenis_doc = JNum 12"
    by (simp add: metadata_field_def md_of_def argenis_doc_def getp_def)
  have cr: "truthy (metadata_field ''createdAt'' argenis_doc)"
    by (simp add: metadata_field_def md_of_def argenis_doc_def getp_def)
  have len: "length (books argenis_doc) = 5"
    by (simp add: argenis_doc_def shelf_def)
  have usr: "user argenis_doc = argenis_user"
    by (simp add: argenis_doc_def)
  show ?thesis
    using resetDatabase_persisted [OF argenis_read wf ops cr] argenis_read ops len usr
    by simp
qed

text \<open>Claim C1 as stated asks for a persisted counter of 0; in the scenario it is 1.\<close>

theorem reset_counter_counterexample:
  "map_option (metadata_field ''totalOperations'') (stored_doc plain_engine ''ARGENIS''
       (snd (resetDatabase plain_engine ''ARGENIS'' argenis_world))) = Some (JNum 1)
   \<and> map_option (metadata_field ''totalOperations'') (stored_doc plain_engine ''ARGENIS''
       (snd (resetDatabase plain_engine ''ARGENIS'' argenis_world))) \<noteq> Some (JNum 0)"
  by code_simp

text \<open>A document with one book and seven operations.\<close>

theorem save_load_roundtrip_witness:
  "is_json_doc fresh_doc
   \<and> (case writeStudentDb plain_engine ''ARGENIS'' fresh_doc argenis_world of
           (Inl e, w') \<Rightarrow> False
         | (Inr doc', w') \<Rightarrow>
             fst (readStudentDb plain_engine ''ARGENIS'' w') = Inr doc' \<and>
             user doc' = user fresh_doc \<and> books doc' = books fresh_doc \<and>
             (\<forall>k. k \<noteq> ''lastAccess'' \<and> k \<noteq> ''totalOperations'' \<longrightarrow>
                  getp (md_of doc') k = getp (md_of fresh_doc) k) \<and>
             getp (md_of doc') ''lastAccess'' = JStr (clock argenis_world (ticks argenis_world)) \<and>
             getp (md_of doc') ''totalOperations'' = JNum (7 + 1))"
proof -
  have j: "is_json_doc fresh_doc" by code_simp
  have wf: "\<not> write_fails argenis_world (getDbPath plain_engine ''ARGENIS'')"
    by (simp add: argenis_world_def)
  have ops: "getp (md_of fresh_doc) ''totalOperations'' = JNum 7
         \<or> getp (md_of fresh_doc) ''totalOperations'' = JUndefined \<and> (7::int) = 0"
    by (simp add: md_of_def fresh_doc_def getp_def)
  have b: "\<bar>7::int\<bar> < 9007199254740992" by simp
  from save_load_roundtrip [OF j wf ops b] j show ?thesis by (intro conjI)
qed

text \<open>Claim C2 as stated has every save add one to the counter and every value survive
  the cycle. A counter of \<open>2^53\<close> is stored unchanged, because the sum is rounded to a
  double; and a page count of \<^verbatim>\<open>Infinity\<close>, which the update route accepts, is in the
  document that the save returns, is written as \<^verbatim>\<open>null\<close>, and is loaded as \<^verbatim>\<open>null\<close>.\<close>

theorem save_load_counterexample:
  "metadata_field ''totalOperations'' saturated_doc = JNum 9007199254740992
   \<and> map_option (metadata_field ''totalOperations'')
        (stored_doc plain_engine ''ARGENIS''
           (snd (writeStudentDb plain_engine ''ARGENIS'' saturated_doc argenis_world)))
       = Some (JNum 9007199254740992)
   \<and> map (\<lambda>b. getp b ''pages'') (books unbounded_doc) = [JInf]
   \<and> map_sum id (\<lambda>d. map (\<lambda>b. getp b ''pages'') (books d))
        (fst (writeStudentDb plain_engine ''ARGENIS'' unbounded_doc argenis_world)) = Inr [JInf]
   \<and> map_option (\<lambda>d. map (\<lambda>b. getp b ''pages'') (books d))
        (stored_doc plain_engine ''ARGENIS''
           (snd (writeStudentDb plain_engine ''ARGENIS'' unbounded_doc argenis_world)))
       = Some [JNull]
   \<and> map_sum id (\<lambda>d. map (\<lambda>b. getp b ''pages'') (books d))
        (fst (readStudentDb plain_engine ''ARGENIS''
           (snd (writeStudentDb plain_engine ''ARGENIS'' unbounded_doc argenis_world))))
       = Inr [JNull]
   \<and> (case fst (put_book plain_engine ''ARGENIS'' ''b1'' [(''pages'', JInf)] argenis_world) of
         Updated book \<Rightarrow> getp book ''pages'' = JInf
       | _ \<Rightarrow> False)
   \<and> stored_field plain_engine ''ARGENIS''
        (snd (put_book plain_engine ''ARGENIS'' ''b1'' [(''pages'', JInf)] argenis_world)) 0 ''pages''
       = Some JNull"
  by code_simp

section \<open>Properties of the mutation engine\<close>

lemma find_index_Some:
  "find_index p xs = Some i \<Longrightarrow> i < length xs \<and> p (xs ! i) \<and> (\<forall>j<i. \<not> p (xs ! j))"
proof (induction xs arbitrary: i)
  case Nil
  then show ?case by simp
next
  case (Cons x xs)
  show ?case
  proof (cases "p x")
    case True
    with Cons.prems show ?thesis by simp
  next
    case False
    with Cons.prems obtain j where j: "find_index p xs = Some j" "i = Suc j" by auto
    from Cons.IH [OF j(1)] False j(2) show ?thesis
      by (auto simp: nth_Cons split: nat.splits)
  qed
qed

lemma find_index_None: "find_index p xs = None \<longleftrightarrow> (\<forall>x\<in>set xs. \<not> p x)"
  by (induction xs) auto

lemma find_index_unique:
  "filter p xs = [b] \<Longrightarrow>
   \<exists>i. find_index p xs = Some i \<and> xs ! i = b \<and> take i xs @ drop (Suc i) xs = filter (\<lambda>x. \<not> p x) xs"
proof (induction xs)
  case Nil
  then show ?case by simp
next
  case (Cons x xs)
  show ?case
  proof (cases "p x")
    case True
    with Cons.prems have "x = b" "filter p xs = []" by auto
    then have "filter (\<lambda>x. \<not> p x) xs = xs"
      by (auto simp: filter_empty_conv filter_id_conv)
    with True \<open>x = b\<close> show ?thesis by simp
  next
    case False
    with Cons.prems have "filter p xs = [b]" by simp
    from Cons.IH [OF this] False show ?thesis by auto
  qed
qed

lemma roundtrip_doc_books:
  assumes "roundtrip_doc db = db" and "b \<in> set (books db)"
  shows "roundtrip_obj b = b"
proof -
  have "books (roundtrip_doc db) = books db" using assms(1) by simp
  then have "map roundtrip_obj (books db) = books db" by (simp add: roundtrip_doc_def)
  then have "\<forall>x\<in>set (books db). roundtrip_obj x = x"
    by (metis map_eq_conv map_ident)
  with assms(2) show ?thesis by blast
qed

lemma readStudentDb_file:
  "files w (getDbPath E sid) = JsonFile d \<Longrightarrow> int (length (books d)) < 4294967296 \<Longrightarrow>
   readStudentDb E sid w = (Inr (roundtrip_doc d), w)"
  by (simp add: readStudentDb_def)

lemma readStudentDb_books:
  assumes "readStudentDb E sid w = (Inr db, w1)" and "books db \<noteq> []"
  shows "w1 = w"
  using assms
  by (auto simp: readStudentDb_def createEmptyDb_def now_def
           split: dbfile.splits prod.splits if_splits)

text \<open>
  Claim C7. The tenant's document loads as \<open>db\<close> and exactly one of its books, \<open>b\<close>, has the
  identifier; storage accepts the write. The first delete answers with the id, title and
  author of \<open>b\<close> and persists the other books in their order, one fewer than before; the
  second delete answers not-found and leaves the world as the first one left it: nothing is
  written and the sequence keeps its length.
\<close>

theorem delete_twice:
  assumes rd: "readStudentDb E sid w = (Inr db, w1)"
    and wf: "\<not> write_fails w (getDbPath E sid)"
    and one: "filter (has_id bid) (books db) = [b]"
  shows "fst (delete_book E sid bid w)
           = Deleted [(''id'', getp b ''id''), (''title'', getp b ''title''), (''author'', getp b ''author'')]
       \<and> map_option books (stored_doc E sid (snd (delete_book E sid bid w)))
           = Some (filter (\<lambda>x. \<not> has_id bid x) (books db))
       \<and> Suc (length (filter (\<lambda>x. \<not> has_id bid x) (books db))) = length (books db)
       \<and> fst (delete_book E sid bid (snd (delete_book E sid bid w))) = BookNotFound
       \<and> snd (delete_book E sid bid (snd (delete_book E sid bid w))) = snd (delete_book E sid bid w)"
proof -
  let ?rest = "filter (\<lambda>x. \<not> has_id bid x) (books db)"
  from one have ne: "books db \<noteq> []" by auto
  from readStudentDb_books [OF rd ne] have w1: "w1 = w" .
  from readStudentDb_Inr [OF rd] have nrm: "roundtrip_doc db = db" by simp
  from find_index_unique [OF one] obtain i where
    i: "find_index (has_id bid) (books db) = Some i" "books db ! i = b"
       "take i (books db) @ drop (Suc i) (books db) = ?rest"
    by blast
  let ?db' = "db\<lparr>books := ?rest\<rparr>"
  let ?st = "?db'\<lparr>metadata := Some (setp (setp (md_of ?db') ''lastAccess'' (JStr (clock w (ticks w))))
              ''totalOperations''
              (js_plus E (js_or (getp (md_of ?db') ''totalOperations'') (JNum 0)) (JNum 1)))\<rparr>"
  let ?w2 = "(w\<lparr>ticks := Suc (ticks w)\<rparr>)\<lparr>files := (files w)(getDbPath E sid := JsonFile ?st)\<rparr>"
  have del: "deleteBook E sid bid w = (Inr (Some b), ?w2)"
    using rd w1 i wf by (simp add: deleteBook_def writeStudentDb_ok)
  have first: "delete_book E sid bid w =
      (Deleted [(''id'', getp b ''id''), (''title'', getp b ''title''), (''author'', getp b ''author'')], ?w2)"
    by (simp add: delete_book_def del)
  have "\<forall>x\<in>set ?rest. roundtrip_obj x = x"
    using roundtrip_doc_books [OF nrm] by auto
  then have rest: "map roundtrip_obj ?rest = ?rest"
    by (intro map_idI) blast
  have "int (length ?rest) \<le> int (length (books db))" by simp
  with readStudentDb_length [OF rd] have lr: "int (length ?rest) < 4294967296" by linarith
  have stored: "map_option books (stored_doc E sid ?w2) = Some ?rest"
    using lr by (simp add: stored_doc_def roundtrip_doc_def rest)
  have len: "Suc (length ?rest) = length (books db)"
  proof -
    have "length (filter (has_id bid) (books db)) + length ?rest = length (books db)"
      by (rule sum_length_filter_compl)
    with one show ?thesis by simp
  qed
  have rd2: "readStudentDb E sid ?w2 = (Inr (roundtrip_doc ?st), ?w2)"
    using lr by (intro readStudentDb_file) simp_all
  have none: "find_index (has_id bid) (books (roundtrip_doc ?st)) = None"
    by (simp add: find_index_None roundtrip_doc_def rest)
  have second: "delete_book E sid bid ?w2 = (BookNotFound, ?w2)"
    by (simp add: delete_book_def deleteBook_def rd2 none)
  show ?thesis
    unfolding first using stored len second by simp
qed

text \<open>Deleting \<open>b3\<close> twice from the sample library.\<close>

theorem delete_twice_witness:
  "filter (has_id ''b3'') (books argenis_doc) = [shelf ! 2]
   \<and> fst (delete_book plain_engine ''ARGENIS'' ''b3'' argenis_world)
       = Deleted [(''id'', JStr ''b3''), (''title'', JStr ''Eragon''), (''author'', JStr ''Paolini'')]
   \<and> map_option books (stored_doc plain_engine ''ARGENIS''
          (snd (delete_book plain_engine ''ARGENIS'' ''b3'' argenis_world)))
       = Some [shelf ! 0, shelf ! 1, shelf ! 3, shelf ! 4]
   \<and> fst (delete_book plain_engine ''ARGENIS'' ''b3''
          (snd (delete_book plain_engine ''ARGENIS'' ''b3'' argenis_world))) = BookNotFound
   \<and> snd (delete_book plain_engine ''ARGENIS'' ''b3''
          (snd (delete_book plain_engine ''ARGENIS'' ''b3'' argenis_world)))
       = snd (delete_book plain_engine ''ARGENIS'' ''b3'' argenis_world)"
proof -
  have wf: "\<not> write_fails argenis_world (getDbPath plain_engine ''ARGENIS'')"
    by (simp add: argenis_world_def)
  have one: "filter (has_id ''b3'') (books argenis_doc) = [shelf ! 2]"
    by code_simp
  have rest: "filter (\<lambda>x. \<not> has_id ''b3'' x) (books argenis_doc) = [shelf ! 0, shelf ! 1, shelf ! 3, shelf ! 4]"
    by code_simp
  have b: "getp (shelf ! 2) ''id'' = JStr ''b3''" "getp (shelf ! 2) ''title'' = JStr ''Eragon''"
    "getp (shelf ! 2) ''author'' = JStr ''Paolini''"
    by code_simp+
  from delete_twice [OF argenis_read wf one] one show ?thesis
    unfolding rest b by simp
qed

lemma json_roundtrip_undefined: "json_roundtrip v = JUndefined \<longleftrightarrow> v = JUndefined"
  by (cases v) auto

lemma getp_roundtrip_obj:
  "\<forall>kv\<in>set ob. snd kv \<noteq> JUndefined \<Longrightarrow> getp (roundtrip_obj ob) k = json_roundtrip (getp ob k)"
  by (induction ob) (auto simp: roundtrip_obj_def getp_def json_roundtrip_undefined)

lemma roundtrip_obj_values:
  assumes "roundtrip_obj ob = ob"
  shows "\<forall>kv\<in>set ob. snd kv \<noteq> JUndefined"
proof -
  have "set (roundtrip_obj ob) \<subseteq> {kv. snd kv \<noteq> JUndefined}"
    by (auto simp: roundtrip_obj_def)
  with assms show ?thesis by auto
qed

lemma getp_foldl_setp:
  "getp (foldl (\<lambda>b field. if getp u field \<noteq> JUndefined
                       then setp b field (getp u field) else b) b fs) f =
     (if f \<in> set fs \<and> getp u f \<noteq> JUndefined then getp u f else getp b f)"
  by (induction fs arbitrary: b) (simp_all add: getp_setp)

lemma getp_apply_fields:
  "getp (apply_fields book u) f =
     (if f \<in> set allowedFields \<and> getp u f \<noteq> JUndefined then getp u f else getp book f)"
  unfolding apply_fields_def by (rule getp_foldl_setp)

lemma foldl_setp_values:
  "\<forall>kv\<in>set b. snd kv \<noteq> JUndefined \<Longrightarrow>
   \<forall>kv\<in>set (foldl (\<lambda>b field. if getp u field \<noteq> JUndefined
                       then setp b field (getp u field) else b) b fs). snd kv \<noteq> JUndefined"
proof (induction fs arbitrary: b)
  case Nil
  then show ?case by simp
next
  case (Cons a fs)
  show ?case
  proof (cases "getp u a \<noteq> JUndefined")
    case True
    have "\<forall>kv\<in>set (setp b a (getp u a)). snd kv \<noteq> JUndefined"
      using set_setp [of b a "getp u a"] Cons.prems True by auto
    from Cons.IH [OF this] True show ?thesis by simp
  next
    case False
    with Cons.IH [OF Cons.prems] show ?thesis by simp
  qed
qed

lemma apply_fields_values:
  "\<forall>kv\<in>set b. snd kv \<noteq> JUndefined \<Longrightarrow> \<forall>kv\<in>set (apply_fields b u). snd kv \<noteq> JUndefined"
  unfolding apply_fields_def by (rule foldl_setp_values)

lemma getp_filter_keys:
  "getp (filter (\<lambda>kv. fst kv \<in> S) u) k = (if k \<in> S then getp u k else JUndefined)"
  by (induction u) (auto simp: getp_def)

lemma apply_fields_cong:
  assumes "\<forall>f\<in>set allowedFields. getp u' f = getp u f"
  shows "apply_fields book u' = apply_fields book u"
  unfolding apply_fields_def
  by (rule foldl_cong) (use assms in auto)

lemma readStudentDb_nonempty:
  assumes "readStudentDb E sid w = (Inr db, w1)" and "books db \<noteq> []"
  shows "w1 = w \<and> stored_doc E sid w = Some db"
  using assms
  by (auto simp: readStudentDb_def createEmptyDb_def now_def stored_doc_def
           split: dbfile.splits prod.splits if_splits)

lemma writeStudentDb_cases:
  "writeStudentDb E sid data w =
     (if write_fails w (getDbPath E sid) then (Inl StorageFault, w\<lparr>ticks := Suc (ticks w)\<rparr>)
      else (Inr (data\<lparr>metadata := Some (setp (setp (md_of data) ''lastAccess'' (JStr (clock w (ticks w))))
              ''totalOperations''
              (js_plus E (js_or (getp (md_of data) ''totalOperations'') (JNum 0)) (JNum 1)))\<rparr>),
      (w\<lparr>ticks := Suc (ticks w)\<rparr>)\<lparr>files := (files w)(getDbPath E sid :=
         JsonFile (data\<lparr>metadata := Some (setp (setp (md_of data) ''lastAccess'' (JStr (clock w (ticks w))))
              ''totalOperations''
              (js_plus E (js_or (getp (md_of data) ''totalOperations'') (JNum 0)) (JNum 1)))\<rparr>))\<rparr>))"
  by (simp add: writeStudentDb_def Let_def now_def)

lemma stored_doc_ticks [simp]: "stored_doc E sid (w\<lparr>ticks := n\<rparr>) = stored_doc E sid w"
  by (simp add: stored_doc_def)

lemma status_allowed: "''status'' \<in> set allowedFields"
  by (simp add: allowedFields_def)

text \<open>
  Claim C8. The tenant's document loads as \<open>db\<close> and the book to update is at position \<open>i\<close>.
  A field \<open>f\<close> that is neither on the allow-list nor the update timestamp has, in the stored
  record after the request, the value it had before, whatever the request holds for it: a
  field that was absent stays absent. And the request stripped of every field outside the
  allow-list gets the same answer and leaves the same world.
\<close>

theorem update_allow_list:
  assumes rd: "readStudentDb E sid w = (Inr db, w1)"
    and idx: "find_index (has_id bid) (books db) = Some i"
    and f: "f \<notin> set allowedFields" "f \<noteq> ''updatedAt''"
  shows "stored_field E sid (snd (put_book E sid bid u w)) i f = Some (getp (books db ! i) f)
       \<and> put_book E sid bid (filter (\<lambda>kv. fst kv \<in> set allowedFields) u) w = put_book E sid bid u w"
proof
  let ?u' = "filter (\<lambda>kv. fst kv \<in> set allowedFields) u"
  have g: "\<forall>a\<in>set allowedFields. getp ?u' a = getp u a"
    by (simp add: getp_filter_keys)
  have a: "apply_fields b ?u' = apply_fields b u" for b
    using g by (rule apply_fields_cong)
  have s: "getp ?u' ''status'' = getp u ''status''"
    using g status_allowed by blast
  show "put_book E sid bid ?u' w = put_book E sid bid u w"
    unfolding put_book_def updateBook_def a s by (rule refl)
next
  let ?b = "books db ! i"
  from find_index_Some [OF idx] have i: "i < length (books db)" by simp
  then have ne: "books db \<noteq> []" by auto
  from readStudentDb_nonempty [OF rd ne] have w1: "w1 = w" and st: "stored_doc E sid w = Some db"
    by simp_all
  from readStudentDb_Inr [OF rd] have nrm: "roundtrip_doc db = db" by simp
  have b: "roundtrip_obj ?b = ?b"
    using roundtrip_doc_books [OF nrm] i by simp
  let ?r = "setp (apply_fields ?b u) ''updatedAt'' (JStr (clock w (ticks w)))"
  have vals: "\<forall>kv\<in>set ?r. snd kv \<noteq> JUndefined"
    using set_setp [of "apply_fields ?b u" "''updatedAt''" "JStr (clock w (ticks w))"]
      apply_fields_values [OF roundtrip_obj_values [OF b], of u]
    by auto
  have "getp (roundtrip_obj ?r) f = json_roundtrip (getp ?r f)"
    using vals by (rule getp_roundtrip_obj)
  also have "getp ?r f = getp ?b f"
    using f by (simp add: getp_setp getp_apply_fields)
  also have "json_roundtrip (getp ?b f) = getp ?b f"
    using b by (rule roundtrip_obj_fixed)
  finally have r: "getp (roundtrip_obj ?r) f = getp ?b f" .
  have old: "stored_field E sid w i f = Some (getp ?b f)"
    using st i by (simp add: stored_field_def stored_book_def)
  show "stored_field E sid (snd (put_book E sid bid u w)) i f = Some (getp (books db ! i) f)"
  proof (cases "truthy (getp u ''status'') \<and> \<not> valid_status (getp u ''status'')")
    case True
    then show ?thesis using old by (simp add: put_book_def)
  next
    case False
    then have pb: "put_book E sid bid u w =
        (case updateBook E sid bid u w of
           (Inl e, w') \<Rightarrow> (InternalError, w')
         | (Inr None, w') \<Rightarrow> (BookNotFound, w')
         | (Inr (Some book), w') \<Rightarrow> (Updated book, w'))"
      by (simp only: put_book_def if_not_P if_False)
    let ?db' = "db\<lparr>books := (books db)[i := ?r]\<rparr>"
    have ub: "updateBook E sid bid u w =
        (case writeStudentDb E sid ?db' (w\<lparr>ticks := Suc (ticks w)\<rparr>) of
           (Inl e, w3) \<Rightarrow> (Inl e, w3)
         | (Inr d, w3) \<Rightarrow> (Inr (Some ?r), w3))"
      by (simp add: updateBook_def rd w1 idx now_def Let_def)
    show ?thesis
    proof (cases "write_fails w (getDbPath E sid)")
      case True
      then have "put_book E sid bid u w = (InternalError, w\<lparr>ticks := Suc (Suc (ticks w))\<rparr>)"
        by (simp add: pb ub writeStudentDb_cases)
      then show ?thesis using old by (simp add: stored_field_def stored_book_def)
    next
      case wok: False
      with readStudentDb_length [OF rd]
      have "stored_doc E sid (snd (put_book E sid bid u w))
                   = Some (roundtrip_doc (?db'\<lparr>metadata := Some (setp (setp (md_of ?db') ''lastAccess''
                        (JStr (clock w (Suc (ticks w))))) ''totalOperations''
                        (js_plus E (js_or (getp (md_of ?db') ''totalOperations'') (JNum 0)) (JNum 1)))\<rparr>))"
        by (simp add: pb ub writeStudentDb_cases stored_doc_def)
      then show ?thesis
        using r i by (simp add: stored_field_def stored_book_def roundtrip_doc_def)
    qed
  qed
qed

text \<open>A status that is truthy and not valid is rejected before the store is touched.\<close>

lemma put_book_rejects:
  "truthy (getp u ''status'') \<Longrightarrow> \<not> valid_status (getp u ''status'') \<Longrightarrow>
   put_book E sid bid u w = (InvalidStatus, w)"
  by (simp add: put_book_def)


text \<open>
  Claim C3 at the failing input: a request whose status is the empty string. The empty string
  is not a valid status, the route does not reject the request, and the stored status of the
  book, \<open>read\<close> before, is the empty string afterwards.
\<close>

theorem empty_status_accepted:
  "\<not> valid_status (JStr [])
   \<and> fst (put_book plain_engine ''ARGENIS'' ''b1'' [(''status'', JStr [])] argenis_world) \<noteq> InvalidStatus
   \<and> stored_field plain_engine ''ARGENIS'' argenis_world 0 ''status'' = Some (JStr ''read'')
   \<and> stored_field plain_engine ''ARGENIS''
        (snd (put_book plain_engine ''ARGENIS'' ''b1'' [(''status'', JStr [])] argenis_world)) 0 ''status''
       = Some (JStr [])"
  by code_simp

theorem update_allow_list_witness:
  "readStudentDb plain_engine ''ARGENIS'' argenis_world = (Inr argenis_doc, argenis_world)
   \<and> find_index (has_id ''b2'') (books argenis_doc) = Some 1
   \<and> stored_field plain_engine ''ARGENIS''
        (snd (put_book plain_engine ''ARGENIS'' ''b2''
               [(''status'', JStr ''reading''), (''owner'', JStr ''mallory'')] argenis_world)) 1 ''owner''
       = Some JUndefined
   \<and> getp (books argenis_doc ! 1) ''owner'' = JUndefined"
proof -
  have idx: "find_index (has_id ''b2'') (books argenis_doc) = Some 1"
    by code_simp
  have f: "''owner'' \<notin> set allowedFields" "''owner'' \<noteq> ''updatedAt''"
    by (simp_all add: allowedFields_def)
  have g: "getp (books argenis_doc ! 1) ''owner'' = JUndefined"
    by code_simp
  from update_allow_list [OF argenis_read idx f, of "[(''status'', JStr ''reading''), (''owner'', JStr ''mallory'')]"]
  show ?thesis using argenis_read idx g by simp
qed

section \<open>Properties of the aggregation engine\<close>

lemma set_first_seen [simp]: "set (first_seen xs) = set xs"
  by (induction xs) auto

lemma first_seen_snoc:
  "first_seen (xs @ [x]) = (if x \<in> set xs then first_seen xs else first_seen xs @ [x])"
  by (induction xs) auto

lemma map_fst_replace_prop [simp]: "map fst (replace_prop ob k v) = map fst ob"
  by (induction ob) auto

lemma map_fst_setp:
  "array_index k = None \<Longrightarrow>
   map fst (setp ob k v) = (if k \<in> set (map fst ob) then map fst ob else map fst ob @ [k])"
  by (auto simp: setp_def map_of_eq_None_iff image_iff)

lemma tally_snoc:
  "tally E (ks @ [k]) = setp (tally E ks) k (js_plus E (js_or (getp (tally E ks) k) (JNum 0)) (JNum 1))"
  by (simp add: tally_def)

lemma tally_plain:
  "\<forall>k\<in>set ks. array_index k = None \<Longrightarrow> int (length ks) < 9007199254740992 \<Longrightarrow>
   map fst (tally E ks) = first_seen ks \<and>
   (\<forall>k. getp (tally E ks) k = (if k \<in> set ks then JNum (int (count_list ks k)) else JUndefined))"
proof (induction ks rule: rev_induct)
  case Nil
  then show ?case by (simp add: tally_def getp_def)
next
  case (snoc x xs)
  then have IH: "map fst (tally E xs) = first_seen xs"
    "\<And>k. getp (tally E xs) k = (if k \<in> set xs then JNum (int (count_list xs k)) else JUndefined)"
    and x: "array_index x = None" and len: "int (length xs) + 1 < 9007199254740992"
    by simp_all
  have "count_list xs x \<le> length xs" by (rule count_le_length)
  with len have c: "\<bar>int (count_list xs x) + 1\<bar> \<le> 9007199254740992" by simp
  have k: "map fst (tally E (xs @ [x])) = first_seen (xs @ [x])"
    by (simp add: tally_snoc map_fst_setp [OF x] IH(1) first_seen_snoc)
  have v: "getp (tally E (xs @ [x])) k =
          (if k \<in> set (xs @ [x]) then JNum (int (count_list (xs @ [x]) k)) else JUndefined)" for k
    using c by (simp add: tally_snoc getp_setp IH(2))
  from k v show ?case by blast
qed

lemma js_gt_num [simp]: "js_gt E (JNum a) (JNum b) = (b < a)"
  by (simp add: js_gt_def js_lt_def is_str_def)

lemma pick_last_max:
  fixes cnt :: "'a \<Rightarrow> int"
  shows "foldl (\<lambda>a b. if cnt b < cnt a then a else b) k ks \<in> set (k # ks) \<and>
     (\<forall>y\<in>set (k # ks). cnt y \<le> cnt (foldl (\<lambda>a b. if cnt b < cnt a then a else b) k ks)) \<and>
     foldl (\<lambda>a b. if cnt b < cnt a then a else b) k ks =
       last (filter (\<lambda>x. \<forall>y\<in>set (k # ks). cnt y \<le> cnt x) (k # ks))"
proof (induction ks rule: rev_induct)
  case Nil
  then show ?case by simp
next
  case (snoc x xs)
  define L where "L = k # xs"
  define r where "r = foldl (\<lambda>a b. if cnt b < cnt a then a else b) k xs"
  from snoc have r: "r \<in> set L" and mx: "\<forall>y\<in>set L. cnt y \<le> cnt r"
    and lst: "r = last (filter (\<lambda>x. \<forall>y\<in>set L. cnt y \<le> cnt x) L)"
    unfolding L_def r_def by blast+
  define r' where "r' = (if cnt x < cnt r then r else x)"
  have goal: "r' \<in> set (L @ [x]) \<and> (\<forall>y\<in>set (L @ [x]). cnt y \<le> cnt r') \<and>
      r' = last (filter (\<lambda>z. \<forall>y\<in>set (L @ [x]). cnt y \<le> cnt z) (L @ [x]))"
  proof (cases "cnt x < cnt r")
    case True
    have same: "filter (\<lambda>z. \<forall>y\<in>set (L @ [x]). cnt y \<le> cnt z) L
              = filter (\<lambda>z. \<forall>y\<in>set L. cnt y \<le> cnt z) L"
    proof (rule filter_cong [OF refl])
      fix z assume "z \<in> set L"
      have "cnt z \<ge> cnt r \<Longrightarrow> cnt x \<le> cnt z" using True by simp
      then show "(\<forall>y\<in>set (L @ [x]). cnt y \<le> cnt z) = (\<forall>y\<in>set L. cnt y \<le> cnt z)"
        using r by auto
    qed
    have notx: "\<not> (\<forall>y\<in>set (L @ [x]). cnt y \<le> cnt x)"
      using True r by (auto intro!: bexI [of _ r])
    have "filter (\<lambda>z. \<forall>y\<in>set (L @ [x]). cnt y \<le> cnt z) (L @ [x])
        = filter (\<lambda>z. \<forall>y\<in>set L. cnt y \<le> cnt z) L"
      using same notx by (simp del: set_append)
    with True r mx lst show ?thesis unfolding r'_def by auto
  next
    case False
    then have xmax: "\<forall>y\<in>set (L @ [x]). cnt y \<le> cnt x"
      using mx by fastforce
    then have "last (filter (\<lambda>z. \<forall>y\<in>set (L @ [x]). cnt y \<le> cnt z) (L @ [x])) = x"
      by (simp del: set_append)
    with False xmax show ?thesis unfolding r'_def by simp
  qed
  have e1: "foldl (\<lambda>a b. if cnt b < cnt a then a else b) k (xs @ [x]) = r'"
    by (simp add: r'_def r_def)
  have e2: "k # xs @ [x] = L @ [x]" by (simp add: L_def)
  show ?case unfolding e1 e2 by (rule goal)
qed

lemma favorite_tally:
  assumes plain: "\<forall>k\<in>set ks. array_index k = None"
    and len: "int (length ks) < 9007199254740992"
  shows "favorite E (tally E ks) = (if ks = [] then ''N/A'' else last (top_keys ks))"
proof (cases "first_seen ks")
  case Nil
  then have "ks = []" by (cases ks) auto
  then show ?thesis by (simp add: favorite_def tally_def)
next
  case (Cons k ks')
  then have ne: "ks \<noteq> []" by auto
  define cnt where "cnt = (\<lambda>k. int (count_list ks k))"
  from tally_plain [OF plain len, of E]
  have keys: "map fst (tally E ks) = k # ks'"
    and vals: "\<And>x. getp (tally E ks) x = (if x \<in> set ks then JNum (cnt x) else JUndefined)"
    by (simp_all add: Cons cnt_def)
  have sub: "set ks' \<subseteq> set ks"
    using set_first_seen [of ks] Cons by auto
  have gt: "js_gt E (getp (tally E ks) a) (getp (tally E ks) b) = (cnt b < cnt a)"
    if "b \<in> set ks'" for a b
  proof -
    from that sub have b: "b \<in> set ks" by auto
    then have "0 < cnt b" using count_list_0_iff [of ks b] by (simp add: cnt_def)
    moreover have "a \<notin> set ks \<Longrightarrow> cnt a = 0" by (simp add: cnt_def count_list_0_iff)
    ultimately show ?thesis
      using b by (cases "a \<in> set ks") (auto simp: vals js_gt_def js_lt_def is_str_def)
  qed
  have "favorite E (tally E ks) =
          foldl (\<lambda>a b. if js_gt E (getp (tally E ks) a) (getp (tally E ks) b) then a else b) k ks'"
    by (simp add: favorite_def keys)
  also have "\<dots> = foldl (\<lambda>a b. if cnt b < cnt a then a else b) k ks'"
    by (rule foldl_cong) (simp_all add: gt)
  also have "\<dots> = last (filter (\<lambda>x. \<forall>y\<in>set (k # ks'). cnt y \<le> cnt x) (k # ks'))"
    using pick_last_max [of cnt k ks'] by blast
  also have "\<dots> = last (top_keys ks)"
  proof -
    have "set (k # ks') = set ks" using set_first_seen [of ks] Cons by simp
    then show ?thesis by (simp add: top_keys_def Cons cnt_def del: set_simps)
  qed
  finally show ?thesis using ne by simp
qed

lemma author_keys_Nil: "author_keys bs = [] \<longleftrightarrow> bs = []"
  by (simp add: author_keys_def)

text \<open>
  Claim C6, as amended. When the keys counted are plain, the favorite genre is \<open>N/A\<close> if
  no book has a truthy genre, and otherwise the last, in order of first occurrence, of the
  genres that occur most often; the favorite author is \<open>N/A\<close> if there is no book, and
  otherwise the last, in order of first occurrence, of the authors that occur most often.
\<close>

theorem favorites_last_seen:
  assumes rd: "readStudentDb E sid w = (Inr db, w1)"
    and g: "\<forall>k\<in>set (genre_keys (books db)). plain_key k"
    and a: "\<forall>k\<in>set (author_keys (books db)). plain_key k"
  shows "fst (getStats E sid w) = Inr (compute_stats E (books db))
       \<and> favoriteGenre (prefs (compute_stats E (books db)))
           = (if genre_keys (books db) = [] then ''N/A'' else last (top_keys (genre_keys (books db))))
       \<and> favoriteAuthor (prefs (compute_stats E (books db)))
           = (if books db = [] then ''N/A'' else last (top_keys (author_keys (books db))))"
proof -
  have 1: "fst (getStats E sid w) = Inr (compute_stats E (books db))"
    by (simp add: getStats_def rd)
  have 2: "favoriteGenre (prefs (compute_stats E (books db)))
           = favorite E (tally E (genre_keys (books db)))"
    by (simp add: compute_stats_def Let_def genre_keys_def)
  have 3: "favoriteAuthor (prefs (compute_stats E (books db)))
           = favorite E (tally E (author_keys (books db)))"
    by (simp add: compute_stats_def Let_def author_keys_def)
  from g have g': "\<forall>k\<in>set (genre_keys (books db)). array_index k = None"
    by (simp add: plain_key_def)
  from a have a': "\<forall>k\<in>set (author_keys (books db)). array_index k = None"
    by (simp add: plain_key_def)
  have len: "int (length (books db)) < 4294967296"
    using rd by (rule readStudentDb_length)
  have "length (genre_keys (books db)) \<le> length (books db)"
    by (simp add: genre_keys_def)
  with len have gl: "int (length (genre_keys (books db))) < 9007199254740992" by simp
  from len have al: "int (length (author_keys (books db))) < 9007199254740992"
    by (simp add: author_keys_def)
  show ?thesis
    unfolding 2 3 favorite_tally [OF g' gl] favorite_tally [OF a' al] author_keys_Nil
    using 1 by simp
qed

text \<open>In the sample library two genres occur twice each and every author once.\<close>

theorem favorites_last_seen_witness:
  "genre_keys (books argenis_doc) = [''SciFi'', ''Fantasy'', ''SciFi'', ''Fantasy'']
   \<and> top_keys (genre_keys (books argenis_doc)) = [''SciFi'', ''Fantasy'']
   \<and> favoriteGenre (prefs (compute_stats plain_engine (books argenis_doc))) = ''Fantasy''
   \<and> favoriteAuthor (prefs (compute_stats plain_engine (books argenis_doc))) = ''Ende''"
proof -
  have g: "\<forall>k\<in>set (genre_keys (books argenis_doc)). plain_key k" by code_simp
  have a: "\<forall>k\<in>set (author_keys (books argenis_doc)). plain_key k" by code_simp
  have gk: "genre_keys (books argenis_doc) = [''SciFi'', ''Fantasy'', ''SciFi'', ''Fantasy'']"
    by code_simp
  have tk: "top_keys (genre_keys (books argenis_doc)) = [''SciFi'', ''Fantasy'']"
    by code_simp
  have ta: "last (top_keys (author_keys (books argenis_doc))) = ''Ende''"
    by code_simp
  have ne: "books argenis_doc \<noteq> []" by code_simp
  from favorites_last_seen [OF argenis_read g a] gk tk ta ne show ?thesis by simp
qed

text \<open>Claim C6 as stated lets the first-seen genre win a tie; here the tie of \<open>SciFi\<close>
  and \<open>Fantasy\<close> goes to \<open>Fantasy\<close>, which was seen second.\<close>

theorem favorite_genre_counterexample:
  "count_list (genre_keys shelf) ''SciFi'' = 2
   \<and> count_list (genre_keys shelf) ''Fantasy'' = 2
   \<and> top_keys (genre_keys shelf) = [''SciFi'', ''Fantasy'']
   \<and> favoriteGenre (prefs (compute_stats plain_engine shelf)) = ''Fantasy''
   \<and> favoriteGenre (prefs (compute_stats plain_engine shelf)) \<noteq> hd (top_keys (genre_keys shelf))"
  by code_simp

text \<open>
  Claim C9, as amended. The statistics operation and its route leave every file as it was:
  no document is written, and the load writes nothing either.
\<close>

theorem getStats_reads_only:
  "files (snd (getStats E sid w)) = files w \<and> files (snd (get_stats E sid w)) = files w"
  by (auto simp: get_stats_def getStats_def readStudentDb_def createEmptyDb_def now_def
           split: dbfile.splits prod.splits sum.splits)

theorem getStats_reads_only_witness:
  "files (snd (get_stats plain_engine ''ARGENIS'' argenis_world)) = files argenis_world"
  using getStats_reads_only [of plain_engine "''ARGENIS''" argenis_world] by simp

text \<open>Claim C9 as stated has the load refresh the last-access time; after the statistics
  request the stored \<open>lastAccess\<close> is the one of March, while the clock reads May.\<close>

theorem stats_lastAccess_counterexample:
  "fst (now argenis_world) = ''2024-05-01T10:00:00.0Z''
   \<and> map_option (metadata_field ''lastAccess'') (stored_doc plain_engine ''ARGENIS'' argenis_world)
       = Some (JStr ''2024-03-01T09:00:00.000Z'')
   \<and> map_option (metadata_field ''lastAccess'')
        (stored_doc plain_engine ''ARGENIS'' (snd (get_stats plain_engine ''ARGENIS'' argenis_world)))
       = Some (JStr ''2024-03-01T09:00:00.000Z'')"
  by code_simp

section \<open>Properties of the query engine\<close>






















text \<open>The comparator throws whenever the first value is a string and the second is not.\<close>

lemma compare_books_raises:
  "getp a f = JStr s \<Longrightarrow> \<not> is_str (getp b f) \<Longrightarrow> compare_books E f order a b = Inl TypeError"
  by (cases "getp b f") (simp_all add: compare_books_def is_str_def)

text \<open>
  Claim C10 at the failing input: the sample library, where the third book has a genre and
  the second has \<open>null\<close>, sorted by genre. The comparator throws on that pair, the
  query throws, and the route answers with an internal error. The same happens in a store
  filled through the create route alone, where a book sent without a genre is stored with
  the genre \<open>null\<close>.
\<close>

theorem sort_null_field_raises:
  "getp (shelf ! 2) ''genre'' = JStr ''Fantasy''
   \<and> getp (shelf ! 1) ''genre'' = JNull
   \<and> compare_books plain_engine ''genre'' 1 (shelf ! 2) (shelf ! 1) = Inl TypeError
   \<and> fst (getBooks plain_engine ''ARGENIS'' [(''sort'', JStr ''genre'')] [] argenis_world) = Inl TypeError
   \<and> fst (get_books plain_engine ''ARGENIS'' [(''sort'', JStr ''genre'')] argenis_world) = InternalError
   \<and> map_option (map (\<lambda>b. getp b ''genre'')) (map_option books (stored_doc plain_engine ''LUIS'' luis_world))
       = Some [JStr ''SciFi'', JNull, JStr ''Fantasy'']
   \<and> fst (get_books plain_engine ''LUIS'' [(''sort'', JStr ''genre'')] luis_world) = InternalError"
  by code_simp

end
